theory Spec2Isabelle
  imports Complex_Main
begin

section \<open>LegendaryCalc: the expression evaluator \<open>MathParser\<close>\<close>

text \<open>
  The development embeds the class \<open>MathParser\<close> of \<open>main.py\<close> (lines 23 to 74):
  the textual rewriting done by \<open>evaluate\<close>, the tree walk \<open>_eval\<close>, and \<open>run_math\<close> (lines 200 to
  214), which formats the result. What the class takes from its host (the Unicode
  tables behind \<open>\d\<close>, \<open>\s\<close> and \<open>str.strip\<close>, floating point arithmetic, the \<open>math\<close>
  module, the grammar of \<open>ast.parse\<close>) is either a parameter, the record \<open>host\<close>, or a
  model of a stated fragment, with an explicit third outcome for what lies outside it.
\<close>

subsection \<open>Strings\<close>

text \<open>
  A Python \<open>str\<close> is a sequence of Unicode code points. The keypad sends the code
  points 960 (the letter pi) and 8730 (the radical sign), which no 8-bit character holds,
  so a string is a list of code points and \<open>u\<close> reads an ASCII literal.
\<close>

type_synonym ustr = "nat list"

definition u :: "string \<Rightarrow> ustr" where
  "u s = map of_char s"

definition ch :: "char \<Rightarrow> nat" where
  "ch c = of_char c"

subsection \<open>Values, exceptions and syntax trees\<close>

text \<open>
  The values an \<open>ast.Constant\<close> can hold, over a type \<open>'f\<close> of floating point numbers
  that stays abstract. A complex number is a pair of floats.
\<close>

datatype 'f pyval =
    VInt int
  | VBool bool
  | VFloat 'f
  | VComplex 'f 'f
  | VStr ustr
  | VBytes "nat list"
  | VNone
  | VEllipsis

text \<open>
  Exceptions, by class and, where one class is raised for different reasons, by reason:
  \<open>ValueError_Empty\<close> is line 42, \<open>NameError\<close> lines 65 and 72,
  \<open>TypeError_Unsupported\<close> line 74; \<open>KeyError\<close> is a failed lookup in
  \<open>self.operators\<close>, \<open>AttributeError\<close> a call target without \<open>id\<close>. The others come
  from the host: \<open>TypeError_ArgCount\<close> when a \<open>math\<close> function gets the wrong number of
  arguments, \<open>TypeError_NotReal\<close> when it gets an argument that is no real number.
\<close>

datatype pyexn =
    ValueError_Empty
  | ValueError_MathDomain
  | SyntaxError
  | NameError ustr
  | KeyError
  | AttributeError
  | TypeError_Unsupported
  | TypeError_ArgCount
  | TypeError_NotReal
  | TypeError_Operand
  | ZeroDivisionError
  | OverflowError

text \<open>The exceptions of floating point arithmetic and of the \<open>math\<close> module.\<close>

datatype numexn = MathDomain | Overflow | ZeroDiv

fun lift_numexn :: "numexn \<Rightarrow> pyexn" where
  "lift_numexn MathDomain = ValueError_MathDomain"
| "lift_numexn Overflow = OverflowError"
| "lift_numexn ZeroDiv = ZeroDivisionError"

datatype operator =
    Add | Sub | Mult | Div | Pow_op | Mod
  | FloorDiv | MatMult | LShift | RShift | BitOr | BitXor | BitAnd

datatype unaryop = USub | UAdd | Not_op | Invert

text \<open>
  The expression nodes of Python's \<open>ast\<close>. The first five are those \<open>_eval\<close> looks at;
  of the others \<open>_eval\<close> reads nothing, so the node classes the claims do not name share
  the constructor \<open>OtherExpr\<close> (class name and children).
\<close>

datatype 'f expr =
    Constant "'f pyval"
  | Name ustr
  | BinOp "'f expr" operator "'f expr"
  | UnaryOp unaryop "'f expr"
  | Call "'f expr" "'f expr list" "(ustr option \<times> 'f expr) list"
  | Attribute "'f expr" ustr
  | Compare "'f expr" "'f expr list"
  | BoolOp "'f expr list"
  | ListExpr "'f expr list"
  | TupleExpr "'f expr list"
  | Starred "'f expr"
  | OtherExpr ustr "'f expr list"

subsection \<open>The host\<close>

text \<open>
  The callables the tables of \<open>__init__\<close> hold (lines 27 to 37): functions of the
  modules \<open>operator\<close> and \<open>math\<close>, and the identity \<open>lambda x: x\<close>.
\<close>

datatype binary_callee = Op_add | Op_sub | Op_mul | Op_truediv | Op_pow | Op_mod

datatype unary_callee = Op_neg | Lambda_identity

datatype 'f realarg = RInt int | RFloat 'f

datatype mathfn = M_sin | M_cos | M_tan | M_asin | M_acos | M_atan | M_log10 | M_log | M_sqrt | M_radians

text \<open>
  What the interpreter supplies. \<open>uni_digit\<close> and \<open>uni_space\<close> are the Unicode
  database (category Nd, and \<open>str.isspace\<close>), consulted beyond ASCII only. The float
  operations are those of the C double: \<open>f_div\<close> and \<open>f_mod\<close> are called with a divisor
  that is not zero, \<open>f_pow\<close> can raise and can return a complex number, \<open>i_truediv\<close> is
  the quotient of two integers, \<open>None\<close> when it overflows. \<open>math_fn\<close> is a function of
  the \<open>math\<close> module on arguments that are real numbers. \<open>other_binop\<close> and
  \<open>other_neg\<close> are the operators on operands that are not all int, bool or float.
  \<open>f_format\<close> is \<open>'{:.8g}'.format\<close> on a float.
\<close>

record 'f host =
  uni_digit :: "nat \<Rightarrow> bool"
  uni_space :: "nat \<Rightarrow> bool"
  f_pi :: "'f"
  f_e :: "'f"
  f_of_int :: "int \<Rightarrow> 'f"
  f_literal :: "nat \<Rightarrow> nat \<Rightarrow> 'f"
  f_is_zero :: "'f \<Rightarrow> bool"
  f_neg :: "'f \<Rightarrow> 'f"
  f_add :: "'f \<Rightarrow> 'f \<Rightarrow> 'f"
  f_sub :: "'f \<Rightarrow> 'f \<Rightarrow> 'f"
  f_mul :: "'f \<Rightarrow> 'f \<Rightarrow> 'f"
  f_div :: "'f \<Rightarrow> 'f \<Rightarrow> 'f"
  f_mod :: "'f \<Rightarrow> 'f \<Rightarrow> 'f"
  f_pow :: "'f \<Rightarrow> 'f \<Rightarrow> numexn + 'f pyval"
  i_truediv :: "int \<Rightarrow> int \<Rightarrow> 'f option"
  math_fn :: "mathfn \<Rightarrow> 'f realarg list \<Rightarrow> numexn + 'f"
  other_binop :: "binary_callee \<Rightarrow> 'f pyval \<Rightarrow> 'f pyval \<Rightarrow> pyexn + 'f pyval"
  other_neg :: "'f pyval \<Rightarrow> pyexn + 'f pyval"
  f_format :: "'f \<Rightarrow> ustr"

subsection \<open>Character classes\<close>

definition is_ascii_digit :: "nat \<Rightarrow> bool" where
  "is_ascii_digit c = (48 \<le> c \<and> c \<le> 57)"

definition is_ascii_letter :: "nat \<Rightarrow> bool" where
  "is_ascii_letter c = ((65 \<le> c \<and> c \<le> 90) \<or> (97 \<le> c \<and> c \<le> 122))"

text \<open>The class \<open>[a-zA-Z_]\<close> of the look-behind on line 38.\<close>

definition is_letter_or_underscore :: "nat \<Rightarrow> bool" where
  "is_letter_or_underscore c = (is_ascii_letter c \<or> c = 95)"

text \<open>\<open>\d\<close> of a \<open>str\<close> pattern: a decimal digit of any script.\<close>

definition is_digit :: "'f host \<Rightarrow> nat \<Rightarrow> bool" where
  "is_digit h c = (if c < 128 then is_ascii_digit c else uni_digit h c)"

text \<open>
  \<open>\s\<close> of a \<open>str\<close> pattern, and what \<open>str.strip()\<close> removes: in ASCII the code
  points 9 to 13 and 28 to 32.
\<close>

definition is_space :: "'f host \<Rightarrow> nat \<Rightarrow> bool" where
  "is_space h c =
     (if c < 128 then (9 \<le> c \<and> c \<le> 13) \<or> (28 \<le> c \<and> c \<le> 32) else uni_space h c)"

subsection \<open>The rewriting of \<open>evaluate\<close> (lines 41 to 54)\<close>

definition strip :: "'f host \<Rightarrow> ustr \<Rightarrow> ustr" where
  "strip h s = rev (dropWhile (is_space h) (rev (dropWhile (is_space h) s)))"

text \<open>\<open>str.replace\<close> of a one-character pattern.\<close>

definition replace_char :: "nat \<Rightarrow> ustr \<Rightarrow> ustr \<Rightarrow> ustr" where
  "replace_char c r s = concat (map (\<lambda>x. if x = c then r else [x]) s)"

definition normalize_symbols :: "ustr \<Rightarrow> ustr" where
  "normalize_symbols s =
     replace_char 8730 (u ''sqrt'') (replace_char (ch CHR ''^'') (u ''**'')
       (replace_char 960 (u ''pi'') s))"

text \<open>
  Line 46, \<open>re.sub(r'(\d)(pi|e|\()', r'\1*\2', expression)\<close>: the scan goes left to
  right; where a digit is followed by \<open>pi\<close>, \<open>e\<close> or an opening parenthesis (tried in
  this order) a star goes between them and the scan resumes after the match; elsewhere
  the character is copied.
\<close>

fun implicit_mult_digit :: "'f host \<Rightarrow> ustr \<Rightarrow> ustr" where
  "implicit_mult_digit h [] = []"
| "implicit_mult_digit h (c # cs) =
     (if is_digit h c \<and> take 2 cs = u ''pi''
        then c # ch CHR ''*'' # u ''pi'' @ implicit_mult_digit h (drop 2 cs)
      else if is_digit h c \<and> take 1 cs = u ''e''
        then c # ch CHR ''*'' # u ''e'' @ implicit_mult_digit h (drop 1 cs)
      else if is_digit h c \<and> take 1 cs = u ''(''
        then c # ch CHR ''*'' # u ''('' @ implicit_mult_digit h (drop 1 cs)
      else c # implicit_mult_digit h cs)"

text \<open>Line 47, \<open>re.sub(r'(\))(\d|\()', r'\1*\2', expression)\<close>.\<close>

fun implicit_mult_paren :: "'f host \<Rightarrow> ustr \<Rightarrow> ustr" where
  "implicit_mult_paren h [] = []"
| "implicit_mult_paren h [c] = [c]"
| "implicit_mult_paren h (c # d # cs) =
     (if c = ch CHR '')'' \<and> (is_digit h d \<or> d = ch CHR ''('')
        then c # ch CHR ''*'' # d # implicit_mult_paren h cs
      else c # implicit_mult_paren h (d # cs))"

text \<open>
  Lines 38 and 50, \<open>_trig_re.sub(r"\g<fn>(radians(", expression)\<close> with the pattern
  \<open>(?<![a-zA-Z_])(?P<fn>sin|cos|tan)\s*\(\<close>. The flag \<open>lb\<close> says whether the
  look-behind holds at the current position: it does at the start of the string, after a
  match (which ends in a parenthesis), and after any copied character outside
  \<open>[a-zA-Z_]\<close>. A match is replaced by the function name and \<open>(radians(\<close>; the
  replacement closes no parenthesis.
\<close>

definition is_trig_name :: "ustr \<Rightarrow> bool" where
  "is_trig_name s = (s = u ''sin'' \<or> s = u ''cos'' \<or> s = u ''tan'')"

function trig_sub :: "'f host \<Rightarrow> bool \<Rightarrow> ustr \<Rightarrow> ustr" where
  "trig_sub h lb [] = []"
| "trig_sub h lb (c # cs) =
     (if lb \<and> is_trig_name (take 3 (c # cs)) \<and>
         take 1 (dropWhile (is_space h) (drop 3 (c # cs))) = u ''(''
        then take 3 (c # cs) @ u ''(radians('' @
               trig_sub h True (drop 1 (dropWhile (is_space h) (drop 3 (c # cs))))
      else c # trig_sub h (\<not> is_letter_or_underscore c) cs)"
  by pat_completeness auto
termination
proof (relation "measure (\<lambda>(h, lb, s). length s)")
  show "wf (measure (\<lambda>(h, lb, s). length s))" by simp
next
  fix h :: "'f host" and lb :: bool and c :: nat and cs :: ustr
  have "length (dropWhile (is_space h) (drop 3 (c # cs))) \<le> length (drop 3 (c # cs))"
    by (rule length_dropWhile_le)
  then show "((h, True, drop 1 (dropWhile (is_space h) (drop 3 (c # cs)))), (h, lb, c # cs))
      \<in> measure (\<lambda>(h, lb, s). length s)"
    by simp
next
  fix h :: "'f host" and lb :: bool and c :: nat and cs :: ustr
  show "((h, \<not> is_letter_or_underscore c, cs), (h, lb, c # cs))
      \<in> measure (\<lambda>(h, lb, s). length s)"
    by simp
qed

text \<open>Lines 53 and 54: the closing parentheses that are missing go to the end.\<close>

definition count_char :: "nat \<Rightarrow> ustr \<Rightarrow> nat" where
  "count_char c s = length (filter (\<lambda>x. x = c) s)"

definition auto_balance :: "ustr \<Rightarrow> ustr" where
  "auto_balance s =
     (let diff = int (count_char (ch CHR ''('') s) - int (count_char (ch CHR '')'') s)
      in if diff > 0 then s @ replicate (nat diff) (ch CHR '')'') else s)"

text \<open>Lines 45 to 50 together, and with line 54 the text that reaches \<open>ast.parse\<close>.\<close>

definition rewrite_text :: "'f host \<Rightarrow> bool \<Rightarrow> ustr \<Rightarrow> ustr" where
  "rewrite_text h use_degrees expression =
     (let e1 = normalize_symbols expression;
          e2 = implicit_mult_digit h e1;
          e3 = implicit_mult_paren h e2
      in if use_degrees then trig_sub h True e3 else e3)"

definition preprocess :: "'f host \<Rightarrow> bool \<Rightarrow> ustr \<Rightarrow> ustr" where
  "preprocess h use_degrees expression = auto_balance (rewrite_text h use_degrees expression)"

subsection \<open>The grammar of \<open>ast.parse\<close>: tokens\<close>

text \<open>
  Line 56 hands the text to \<open>ast.parse(expression, mode='eval')\<close>. The parser is the
  host's; what follows models it on a fragment of Python's lexical and expression grammar
  and says so when a text leaves the fragment: an outcome is a result, an exception, or
  \<open>Unmodelled\<close>. \<open>Unmodelled\<close> promises nothing about the program.
\<close>

datatype 'a outcome = Return 'a | Raises pyexn | Unmodelled

datatype token =
    T_Int nat
  | T_Float nat nat
  | T_Name ustr
  | T_True | T_False | T_None
  | T_String ustr
  | T_Plus | T_Minus | T_Star | T_Slash | T_DoubleSlash | T_Percent | T_DoubleStar
  | T_At | T_Tilde
  | T_LPar | T_RPar | T_Comma

text \<open>The value of a run of ASCII digits.\<close>

definition nat_of_digits :: "ustr \<Rightarrow> nat" where
  "nat_of_digits ds = foldl (\<lambda>a c. 10 * a + (c - 48)) 0 ds"

definition is_ident_char :: "nat \<Rightarrow> bool" where
  "is_ident_char c = (is_letter_or_underscore c \<or> is_ascii_digit c)"

text \<open>
  A character that may stand in a comment or between the quotes of a string literal of
  the fragment: no control character, no backslash, no surrogate, nothing beyond the
  last code point.
\<close>

definition is_plain :: "nat \<Rightarrow> bool" where
  "is_plain c = (32 \<le> c \<and> c \<noteq> 92 \<and> c \<noteq> 127 \<and> (c < 55296 \<or> 57343 < c) \<and> c \<le> 1114111)"

text \<open>
  A character that would continue a number or a name into something the fragment does
  not lex: a letter or underscore after a number (exponents, suffixes, digit grouping),
  or a character beyond ASCII.
\<close>

definition continues_word :: "ustr \<Rightarrow> bool" where
  "continues_word r = (case r of [] \<Rightarrow> False | c # _ \<Rightarrow> is_letter_or_underscore c \<or> 128 \<le> c)"

text \<open>The reserved words of Python 3; three of them are literals.\<close>

definition reserved_words :: "ustr list" where
  "reserved_words = map u [''and'', ''as'', ''assert'', ''async'', ''await'', ''break'', ''class'',
     ''continue'', ''def'', ''del'', ''elif'', ''else'', ''except'', ''finally'', ''for'',
     ''from'', ''global'', ''if'', ''import'', ''in'', ''is'', ''lambda'', ''nonlocal'',
     ''not'', ''or'', ''pass'', ''raise'', ''return'', ''try'', ''while'', ''with'', ''yield'']"

definition lex_name :: "ustr \<Rightarrow> (token option \<times> ustr) outcome" where
  "lex_name s =
     (let name = takeWhile is_ident_char s; r = dropWhile is_ident_char s
      in if continues_word r \<or> take 1 r = u [CHR 0x27] \<or> take 1 r = u [CHR 0x22] then Unmodelled
         else if name = u ''True'' then Return (Some T_True, r)
         else if name = u ''False'' then Return (Some T_False, r)
         else if name = u ''None'' then Return (Some T_None, r)
         else if name \<in> set reserved_words then Unmodelled
         else Return (Some (T_Name name), r))"

text \<open>
  A number that starts with a digit: a decimal integer, or digits, a point and digits.
  A decimal integer with a leading zero is an error unless all its digits are zero; one
  of more than 4300 digits is refused by the interpreters that limit the conversion and
  is left out.
\<close>

definition lex_number :: "ustr \<Rightarrow> (token option \<times> ustr) outcome" where
  "lex_number s =
     (let ds = takeWhile is_ascii_digit s; r = dropWhile is_ascii_digit s
      in if take 1 r = u ''.''
         then (let fs = takeWhile is_ascii_digit (drop 1 r); r2 = dropWhile is_ascii_digit (drop 1 r)
               in if continues_word r2 then Unmodelled
                  else Return (Some (T_Float (nat_of_digits (ds @ fs)) (length fs)), r2))
         else if continues_word r then Unmodelled
         else if 1 < length ds \<and> take 1 ds = u ''0'' \<and> nat_of_digits ds \<noteq> 0 then Raises SyntaxError
         else if 4300 < length ds then Unmodelled
         else Return (Some (T_Int (nat_of_digits ds)), r))"

text \<open>A number that starts with the point.\<close>

definition lex_point :: "ustr \<Rightarrow> (token option \<times> ustr) outcome" where
  "lex_point cs =
     (let fs = takeWhile is_ascii_digit cs; r = dropWhile is_ascii_digit cs
      in if fs = [] \<or> continues_word r then Unmodelled
         else Return (Some (T_Float (nat_of_digits fs) (length fs)), r))"

text \<open>
  A string literal in one pair of quotes \<open>q\<close>, without prefix and without escapes;
  \<open>cs\<close> is the text after the opening quote.
\<close>

definition lex_string :: "nat \<Rightarrow> ustr \<Rightarrow> (token option \<times> ustr) outcome" where
  "lex_string q cs =
     (let body = takeWhile (\<lambda>x. x \<noteq> q) cs; r = dropWhile (\<lambda>x. x \<noteq> q) cs
      in if take 2 cs = [q, q] then Unmodelled
         else if \<not> list_all is_plain body then Unmodelled
         else if r = [] then Raises SyntaxError
         else Return (Some (T_String body), drop 1 r))"

text \<open>
  One step of the lexer on a text that is not empty: blanks (space, tab, form feed) are
  skipped, a comment runs to the end of the text.
\<close>

definition lex_one :: "nat \<Rightarrow> ustr \<Rightarrow> (token option \<times> ustr) outcome" where
  "lex_one c cs =
     (if c = 32 \<or> c = 9 \<or> c = 12 then Return (None, cs)
      else if c = ch CHR ''#'' then (if list_all is_plain cs then Return (None, []) else Unmodelled)
      else if is_ascii_digit c then lex_number (c # cs)
      else if c = ch CHR ''.'' then lex_point cs
      else if is_letter_or_underscore c then lex_name (c # cs)
      else if c = 39 \<or> c = 34 then lex_string c cs
      else if c = ch CHR ''+'' then Return (Some T_Plus, cs)
      else if c = ch CHR ''-'' then Return (Some T_Minus, cs)
      else if c = ch CHR ''%'' then Return (Some T_Percent, cs)
      else if c = ch CHR ''~'' then Return (Some T_Tilde, cs)
      else if c = ch CHR ''@'' then Return (Some T_At, cs)
      else if c = ch CHR ''('' then Return (Some T_LPar, cs)
      else if c = ch CHR '')'' then Return (Some T_RPar, cs)
      else if c = ch CHR '','' then Return (Some T_Comma, cs)
      else if c = ch CHR ''*'' then
        (if take 1 cs = u ''*'' then Return (Some T_DoubleStar, drop 1 cs) else Return (Some T_Star, cs))
      else if c = ch CHR ''/'' then
        (if take 1 cs = u ''/'' then Return (Some T_DoubleSlash, drop 1 cs) else Return (Some T_Slash, cs))
      else Unmodelled)"

fun push_token :: "token option \<Rightarrow> token list outcome \<Rightarrow> token list outcome" where
  "push_token (Some t) (Return ts) = Return (t # ts)"
| "push_token None (Return ts) = Return ts"
| "push_token t (Raises x) = Raises x"
| "push_token t Unmodelled = Unmodelled"

text \<open>
  The lexer. Every step of \<open>lex_one\<close> shortens the text; the test that it did is there
  for the termination proof and never fails.
\<close>

function tokenize :: "ustr \<Rightarrow> token list outcome" where
  "tokenize [] = Return []"
| "tokenize (c # cs) =
     (case lex_one c cs of
        Return (t, r) \<Rightarrow> (if length r \<le> length cs then push_token t (tokenize r) else Unmodelled)
      | Raises x \<Rightarrow> Raises x
      | Unmodelled \<Rightarrow> Unmodelled)"
  by pat_completeness auto
termination
  by (relation "measure length") auto

subsection \<open>The grammar of \<open>ast.parse\<close>: expressions\<close>

fun add_op :: "token \<Rightarrow> operator option" where
  "add_op T_Plus = Some Add"
| "add_op T_Minus = Some Sub"
| "add_op t = None"

fun mul_op :: "token \<Rightarrow> operator option" where
  "mul_op T_Star = Some Mult"
| "mul_op T_Slash = Some Div"
| "mul_op T_DoubleSlash = Some FloorDiv"
| "mul_op T_Percent = Some Mod"
| "mul_op T_At = Some MatMult"
| "mul_op t = None"

fun prefix_op :: "token \<Rightarrow> unaryop option" where
  "prefix_op T_Plus = Some UAdd"
| "prefix_op T_Minus = Some USub"
| "prefix_op T_Tilde = Some Invert"
| "prefix_op t = None"

fun literal_atom :: "'f host \<Rightarrow> token \<Rightarrow> 'f expr option" where
  "literal_atom h (T_Int n) = Some (Constant (VInt (int n)))"
| "literal_atom h (T_Float m k) = Some (Constant (VFloat (f_literal h m k)))"
| "literal_atom h (T_Name x) = Some (Name x)"
| "literal_atom h T_True = Some (Constant (VBool True))"
| "literal_atom h T_False = Some (Constant (VBool False))"
| "literal_atom h T_None = Some (Constant VNone)"
| "literal_atom h (T_String s) = Some (Constant (VStr s))"
| "literal_atom h t = None"

fun is_string_token :: "token \<Rightarrow> bool" where
  "is_string_token (T_String s) = True"
| "is_string_token t = False"


text \<open>
  The parser is a recursive descent over the rules of Python's grammar that the tokens
  of the fragment can reach:
  \<^verbatim>\<open>
  sum:     sum ('+'|'-') term | term
  term:    term ('*'|'/'|'//'|'%'|'@') factor | factor
  factor:  ('+'|'-'|'~') factor | power
  power:   primary '**' factor | primary
  primary: primary '(' [arguments] ')' | atom
  atom:    NAME | 'True' | 'False' | 'None' | STRING | NUMBER | '(' sum ')'
  \<close>
  One function walks them, indexed by the rule it is in; the left-recursive rules are
  loops that carry the tree built so far (\<open>N_sum_rest\<close>, \<open>N_term_rest\<close>,
  \<open>N_call_rest\<close>), and \<open>N_args\<close> carries the call target and the arguments read so
  far. Outside the fragment, and \<open>Unmodelled\<close>: the empty tuple, a comma outside a
  call (a tuple), a star where an operand is due (a starred argument), adjacent string
  literals. The tests on lengths are there for the termination proof and never fail.
\<close>

datatype 'f nonterm =
    N_sum | N_sum_rest "'f expr" | N_term | N_term_rest "'f expr"
  | N_factor | N_power | N_primary | N_call_rest "'f expr"
  | N_args "'f expr" "'f expr list" | N_atom

fun level :: "'f nonterm \<Rightarrow> nat" where
  "level (N_args f as) = 7"
| "level N_sum = 6"
| "level (N_sum_rest e) = 5"
| "level N_term = 5"
| "level (N_term_rest e) = 4"
| "level N_factor = 4"
| "level N_power = 3"
| "level N_primary = 2"
| "level (N_call_rest e) = 1"
| "level N_atom = 1"

function parse :: "'f host \<Rightarrow> 'f nonterm \<Rightarrow> token list \<Rightarrow> ('f expr \<times> token list) outcome" where
  "parse h N_sum ts =
     (case parse h N_term ts of
        Return (e, r) \<Rightarrow> (if length r \<le> length ts then parse h (N_sum_rest e) r else Unmodelled)
      | Raises x \<Rightarrow> Raises x
      | Unmodelled \<Rightarrow> Unmodelled)"
| "parse h (N_sum_rest e) [] = Return (e, [])"
| "parse h (N_sum_rest e) (t # ts) =
     (case add_op t of
        None \<Rightarrow> Return (e, t # ts)
      | Some opr \<Rightarrow>
          (case parse h N_term ts of
             Return (e2, r) \<Rightarrow>
               (if length r \<le> length ts then parse h (N_sum_rest (BinOp e opr e2)) r else Unmodelled)
           | Raises x \<Rightarrow> Raises x
           | Unmodelled \<Rightarrow> Unmodelled))"
| "parse h N_term ts =
     (case parse h N_factor ts of
        Return (e, r) \<Rightarrow> (if length r \<le> length ts then parse h (N_term_rest e) r else Unmodelled)
      | Raises x \<Rightarrow> Raises x
      | Unmodelled \<Rightarrow> Unmodelled)"
| "parse h (N_term_rest e) [] = Return (e, [])"
| "parse h (N_term_rest e) (t # ts) =
     (case mul_op t of
        None \<Rightarrow> Return (e, t # ts)
      | Some opr \<Rightarrow>
          (case parse h N_factor ts of
             Return (e2, r) \<Rightarrow>
               (if length r \<le> length ts then parse h (N_term_rest (BinOp e opr e2)) r else Unmodelled)
           | Raises x \<Rightarrow> Raises x
           | Unmodelled \<Rightarrow> Unmodelled))"
| "parse h N_factor [] = Raises SyntaxError"
| "parse h N_factor (t # ts) =
     (case prefix_op t of
        None \<Rightarrow> parse h N_power (t # ts)
      | Some uop \<Rightarrow>
          (case parse h N_factor ts of
             Return (e, r) \<Rightarrow> Return (UnaryOp uop e, r)
           | Raises x \<Rightarrow> Raises x
           | Unmodelled \<Rightarrow> Unmodelled))"
| "parse h N_power ts =
     (case parse h N_primary ts of
        Return (e, r) \<Rightarrow>
          (case r of
             [] \<Rightarrow> Return (e, [])
           | t # r' \<Rightarrow>
               (if t = T_DoubleStar
                then (if length r' < length ts
                      then (case parse h N_factor r' of
                              Return (e2, r2) \<Rightarrow> Return (BinOp e Pow_op e2, r2)
                            | Raises x \<Rightarrow> Raises x
                            | Unmodelled \<Rightarrow> Unmodelled)
                      else Unmodelled)
                else Return (e, r)))
      | Raises x \<Rightarrow> Raises x
      | Unmodelled \<Rightarrow> Unmodelled)"
| "parse h N_primary ts =
     (case parse h N_atom ts of
        Return (e, r) \<Rightarrow> (if length r \<le> length ts then parse h (N_call_rest e) r else Unmodelled)
      | Raises x \<Rightarrow> Raises x
      | Unmodelled \<Rightarrow> Unmodelled)"
| "parse h (N_call_rest e) [] = Return (e, [])"
| "parse h (N_call_rest e) (t # ts) =
     (if t = T_LPar then parse h (N_args e []) ts else Return (e, t # ts))"
| "parse h (N_args f as) [] = Raises SyntaxError"
| "parse h (N_args f as) (t # ts) =
     (if t = T_RPar then parse h (N_call_rest (Call f as [])) ts
      else (case parse h N_sum (t # ts) of
              Return (e, r) \<Rightarrow>
                (case r of
                   [] \<Rightarrow> Raises SyntaxError
                 | t' # r' \<Rightarrow>
                     (if t' = T_RPar
                      then (if length r' < length (t # ts)
                            then parse h (N_call_rest (Call f (as @ [e]) [])) r' else Unmodelled)
                      else if t' = T_Comma
                      then (if length r' < length (t # ts)
                            then parse h (N_args f (as @ [e])) r' else Unmodelled)
                      else Raises SyntaxError))
            | Raises x \<Rightarrow> Raises x
            | Unmodelled \<Rightarrow> Unmodelled))"
| "parse h N_atom [] = Raises SyntaxError"
| "parse h N_atom (t # ts) =
     (case literal_atom h t of
        Some e \<Rightarrow>
          (if is_string_token t \<and> list_ex is_string_token (take 1 ts) then Unmodelled
           else Return (e, ts))
      | None \<Rightarrow>
          (if t = T_LPar
           then (if take 1 ts = [T_RPar] then Unmodelled
                 else (case parse h N_sum ts of
                         Return (e, r) \<Rightarrow>
                           (case r of
                              [] \<Rightarrow> Raises SyntaxError
                            | t' # r' \<Rightarrow>
                                (if t' = T_RPar then Return (e, r')
                                 else if t' = T_Comma then Unmodelled
                                 else Raises SyntaxError))
                       | Raises x \<Rightarrow> Raises x
                       | Unmodelled \<Rightarrow> Unmodelled))
           else if t = T_Star \<or> t = T_DoubleStar then Unmodelled
           else Raises SyntaxError))"
  by pat_completeness auto
termination
  by (relation "measures [\<lambda>(h, n, ts). length ts, \<lambda>(h, n, ts). level n]") auto


definition parse_tokens :: "'f host \<Rightarrow> token list \<Rightarrow> 'f expr outcome" where
  "parse_tokens h ts =
     (case parse h N_sum ts of
        Return (e, r) \<Rightarrow>
          (case r of [] \<Rightarrow> Return e
           | t # r' \<Rightarrow> if t = T_Comma then Unmodelled else Raises SyntaxError)
      | Raises x \<Rightarrow> Raises x
      | Unmodelled \<Rightarrow> Unmodelled)"

text \<open>
  \<open>ast.parse(expression, mode='eval').body\<close>. A text that starts with a blank is an
  indentation error to the interpreter and is left out.
\<close>

definition py_parse :: "'f host \<Rightarrow> ustr \<Rightarrow> 'f expr outcome" where
  "py_parse h s =
     (if take 1 s = [32] \<or> take 1 s = [9] then Unmodelled
      else (case tokenize s of
              Return ts \<Rightarrow> parse_tokens h ts
            | Raises x \<Rightarrow> Raises x
            | Unmodelled \<Rightarrow> Unmodelled))"


subsection \<open>The tables of \<open>__init__\<close> (lines 27 to 37)\<close>

text \<open>
  \<open>self.operators\<close> is keyed by the classes of binary and of unary operators; a binary
  node looks a binary class up and a unary node a unary one, so the table is two maps.
\<close>

fun operators :: "operator \<Rightarrow> binary_callee option" where
  "operators Add = Some Op_add"
| "operators Sub = Some Op_sub"
| "operators Mult = Some Op_mul"
| "operators Div = Some Op_truediv"
| "operators Pow_op = Some Op_pow"
| "operators Mod = Some Op_mod"
| "operators opr = None"

fun unary_operators :: "unaryop \<Rightarrow> unary_callee option" where
  "unary_operators USub = Some Op_neg"
| "unary_operators UAdd = Some Lambda_identity"
| "unary_operators uop = None"

definition constants :: "'f host \<Rightarrow> ustr \<Rightarrow> 'f pyval option" where
  "constants h x =
     (if x = u ''pi'' then Some (VFloat (f_pi h))
      else if x = u ''e'' then Some (VFloat (f_e h))
      else None)"

definition functions_table :: "ustr \<Rightarrow> mathfn option" where
  "functions_table x =
     (if x = u ''sin'' then Some M_sin
      else if x = u ''cos'' then Some M_cos
      else if x = u ''tan'' then Some M_tan
      else if x = u ''asin'' then Some M_asin
      else if x = u ''acos'' then Some M_acos
      else if x = u ''atan'' then Some M_atan
      else if x = u ''log'' then Some M_log10
      else if x = u ''ln'' then Some M_log
      else if x = u ''sqrt'' then Some M_sqrt
      else if x = u ''radians'' then Some M_radians
      else None)"

subsection \<open>Calling the callables\<close>

text \<open>The real numbers among the values: int, bool (an int, 0 or 1) and float.\<close>

fun to_real :: "'f pyval \<Rightarrow> 'f realarg option" where
  "to_real (VInt i) = Some (RInt i)"
| "to_real (VBool b) = Some (RInt (if b then 1 else 0))"
| "to_real (VFloat x) = Some (RFloat x)"
| "to_real v = None"

text \<open>
  An int becomes a float by rounding to nearest; it is too large when it rounds to
  \<open>2 ^ 1024\<close>.
\<close>

fun as_float :: "'f host \<Rightarrow> 'f realarg \<Rightarrow> pyexn + 'f" where
  "as_float h (RFloat x) = Inr x"
| "as_float h (RInt i) =
     (if \<bar>i\<bar> < 2 ^ 1024 - 2 ^ 970 then Inr (f_of_int h i) else Inl OverflowError)"

text \<open>
  The operators on two floats: sum, difference and product always return; quotient and
  remainder raise on a zero divisor; the power is the host's.
\<close>

fun float_op :: "'f host \<Rightarrow> binary_callee \<Rightarrow> 'f \<Rightarrow> 'f \<Rightarrow> pyexn + 'f pyval" where
  "float_op h Op_add x y = Inr (VFloat (f_add h x y))"
| "float_op h Op_sub x y = Inr (VFloat (f_sub h x y))"
| "float_op h Op_mul x y = Inr (VFloat (f_mul h x y))"
| "float_op h Op_truediv x y =
     (if f_is_zero h y then Inl ZeroDivisionError else Inr (VFloat (f_div h x y)))"
| "float_op h Op_mod x y =
     (if f_is_zero h y then Inl ZeroDivisionError else Inr (VFloat (f_mod h x y)))"
| "float_op h Op_pow x y =
     (case f_pow h x y of Inl e \<Rightarrow> Inl (lift_numexn e) | Inr v \<Rightarrow> Inr v)"

definition mixed_op :: "'f host \<Rightarrow> binary_callee \<Rightarrow> 'f realarg \<Rightarrow> 'f realarg \<Rightarrow> pyexn + 'f pyval" where
  "mixed_op h f x y =
     (case as_float h x of
        Inl e \<Rightarrow> Inl e
      | Inr a \<Rightarrow> (case as_float h y of Inl e \<Rightarrow> Inl e | Inr b \<Rightarrow> float_op h f a b))"

text \<open>
  The operators on two ints: exact, with Python's floor remainder; the quotient is a
  float; a negative exponent sends the power to the floats.
\<close>

fun int_op :: "'f host \<Rightarrow> binary_callee \<Rightarrow> int \<Rightarrow> int \<Rightarrow> pyexn + 'f pyval" where
  "int_op h Op_add i j = Inr (VInt (i + j))"
| "int_op h Op_sub i j = Inr (VInt (i - j))"
| "int_op h Op_mul i j = Inr (VInt (i * j))"
| "int_op h Op_truediv i j =
     (if j = 0 then Inl ZeroDivisionError
      else (case i_truediv h i j of None \<Rightarrow> Inl OverflowError | Some x \<Rightarrow> Inr (VFloat x)))"
| "int_op h Op_mod i j = (if j = 0 then Inl ZeroDivisionError else Inr (VInt (i mod j)))"
| "int_op h Op_pow i j =
     (if 0 \<le> j then Inr (VInt (i ^ nat j)) else mixed_op h Op_pow (RInt i) (RInt j))"

fun real_op :: "'f host \<Rightarrow> binary_callee \<Rightarrow> 'f realarg \<Rightarrow> 'f realarg \<Rightarrow> pyexn + 'f pyval" where
  "real_op h f (RInt i) (RInt j) = int_op h f i j"
| "real_op h f x y = mixed_op h f x y"

definition call_binary :: "'f host \<Rightarrow> binary_callee \<Rightarrow> 'f pyval \<Rightarrow> 'f pyval \<Rightarrow> pyexn + 'f pyval" where
  "call_binary h f a b =
     (case to_real a of
        None \<Rightarrow> other_binop h f a b
      | Some x \<Rightarrow> (case to_real b of None \<Rightarrow> other_binop h f a b | Some y \<Rightarrow> real_op h f x y))"

text \<open>\<open>operator.neg\<close>, and the identity of line 30, which returns any value as it is.\<close>

fun call_unary :: "'f host \<Rightarrow> unary_callee \<Rightarrow> 'f pyval \<Rightarrow> pyexn + 'f pyval" where
  "call_unary h Lambda_identity v = Inr v"
| "call_unary h Op_neg (VInt i) = Inr (VInt (- i))"
| "call_unary h Op_neg (VBool b) = Inr (VInt (if b then - 1 else 0))"
| "call_unary h Op_neg (VFloat x) = Inr (VFloat (f_neg h x))"
| "call_unary h Op_neg v = other_neg h v"

text \<open>
  A function of \<open>math\<close> called on the evaluated arguments: the count of the arguments
  is checked first (\<open>math.log\<close> takes a number and an optional base, the others one
  number), then that each is a real number; the rest is the host's.
\<close>

definition accepts_count :: "mathfn \<Rightarrow> nat \<Rightarrow> bool" where
  "accepts_count m n = (if m = M_log then n = 1 \<or> n = 2 else n = 1)"

definition call_math :: "'f host \<Rightarrow> mathfn \<Rightarrow> 'f pyval list \<Rightarrow> pyexn + 'f pyval" where
  "call_math h m vs =
     (if \<not> accepts_count m (length vs) then Inl TypeError_ArgCount
      else if list_ex (\<lambda>v. to_real v = None) vs then Inl TypeError_NotReal
      else (case math_fn h m (map (\<lambda>v. the (to_real v)) vs) of
              Inl e \<Rightarrow> Inl (lift_numexn e)
            | Inr x \<Rightarrow> Inr (VFloat x)))"

subsection \<open>\<open>_eval\<close> (lines 59 to 74)\<close>

text \<open>The results of a list comprehension: the first exception, or all the values.\<close>

fun sequence_results :: "(pyexn + 'a) list \<Rightarrow> pyexn + 'a list" where
  "sequence_results [] = Inr []"
| "sequence_results (Inl e # rs) = Inl e"
| "sequence_results (Inr v # rs) =
     (case sequence_results rs of Inl e \<Rightarrow> Inl e | Inr vs \<Rightarrow> Inr (v # vs))"

text \<open>\<open>node.func.id\<close>: only a \<open>Name\<close> has the attribute.\<close>

fun node_id :: "'f expr \<Rightarrow> ustr option" where
  "node_id (Name x) = Some x"
| "node_id e = None"

text \<open>
  The tree walk. The callee is looked up before the operands are evaluated, the left
  operand before the right one, the arguments in order; the keywords of a call are not
  read. Line 62 (\<open>ast.Num\<close>) is never reached: since Python 3.8 a number is an
  \<open>ast.Constant\<close>, which line 61 returns.
\<close>

fun eval_node :: "'f host \<Rightarrow> 'f expr \<Rightarrow> pyexn + 'f pyval" where
  "eval_node h (Constant v) = Inr v"
| "eval_node h (Name x) =
     (case constants h x of Some v \<Rightarrow> Inr v | None \<Rightarrow> Inl (NameError x))"
| "eval_node h (BinOp l opr r) =
     (case operators opr of
        None \<Rightarrow> Inl KeyError
      | Some f \<Rightarrow>
          (case eval_node h l of
             Inl x \<Rightarrow> Inl x
           | Inr a \<Rightarrow> (case eval_node h r of Inl x \<Rightarrow> Inl x | Inr b \<Rightarrow> call_binary h f a b)))"
| "eval_node h (UnaryOp uop e) =
     (case unary_operators uop of
        None \<Rightarrow> Inl KeyError
      | Some f \<Rightarrow> (case eval_node h e of Inl x \<Rightarrow> Inl x | Inr a \<Rightarrow> call_unary h f a))"
| "eval_node h (Call func args kws) =
     (case node_id func of
        None \<Rightarrow> Inl AttributeError
      | Some fname \<Rightarrow>
          (case functions_table fname of
             None \<Rightarrow> Inl (NameError fname)
           | Some m \<Rightarrow>
               (case sequence_results (map (eval_node h) args) of
                  Inl x \<Rightarrow> Inl x
                | Inr vs \<Rightarrow> call_math h m vs)))"
| "eval_node h (Attribute e a) = Inl TypeError_Unsupported"
| "eval_node h (Compare e es) = Inl TypeError_Unsupported"
| "eval_node h (BoolOp es) = Inl TypeError_Unsupported"
| "eval_node h (ListExpr es) = Inl TypeError_Unsupported"
| "eval_node h (TupleExpr es) = Inl TypeError_Unsupported"
| "eval_node h (Starred e) = Inl TypeError_Unsupported"
| "eval_node h (OtherExpr c es) = Inl TypeError_Unsupported"

subsection \<open>\<open>evaluate\<close> (lines 40 to 57)\<close>

definition evaluate :: "'f host \<Rightarrow> bool \<Rightarrow> ustr \<Rightarrow> 'f pyval outcome" where
  "evaluate h use_degrees expression =
     (let stripped = strip h expression
      in if stripped = [] then Raises ValueError_Empty
         else (case py_parse h (preprocess h use_degrees stripped) of
                 Return node \<Rightarrow>
                   (case eval_node h node of Inl x \<Rightarrow> Raises x | Inr v \<Rightarrow> Return v)
               | Raises x \<Rightarrow> Raises x
               | Unmodelled \<Rightarrow> Unmodelled))"

subsection \<open>\<open>run_math\<close> (lines 200 to 214)\<close>

text \<open>The decimal numeral of a natural number.\<close>

fun digits_of :: "nat \<Rightarrow> ustr" where
  "digits_of n = (if n < 10 then [48 + n] else digits_of (n div 10) @ [48 + n mod 10])"

declare digits_of.simps [simp del]

definition strip_trailing_zeros :: "ustr \<Rightarrow> ustr" where
  "strip_trailing_zeros s = rev (dropWhile (\<lambda>c. c = 48) (rev s))"

text \<open>
  \<open>'{:.8g}'.format(n)\<close> for an int \<open>n\<close> the double holds exactly, \<open>\<bar>n\<bar> < 2 ^ 53\<close>.
  Below \<open>10 ^ 8\<close> the result is the decimal numeral. From there on it is scientific
  notation: the numeral is rounded to eight significant digits, ties to the even
  neighbour, the zeros at the end of the mantissa go, and the exponent has two digits at
  least.
\<close>

definition scientific8 :: "nat \<Rightarrow> ustr" where
  "scientific8 n =
     (let d = length (digits_of n);
          p = 10 ^ (d - 8);
          q = n div p;
          r = n mod p;
          m0 = (if p < 2 * r \<or> (2 * r = p \<and> odd q) then q + 1 else q);
          m = (if m0 = 10 ^ 8 then 10 ^ 7 else m0);
          x = (if m0 = 10 ^ 8 then d else d - 1);
          ms = digits_of m;
          frac = strip_trailing_zeros (drop 1 ms)
      in take 1 ms @ (if frac = [] then [] else ch CHR ''.'' # frac) @ u ''e+'' @
         (if x < 10 then ch CHR ''0'' # digits_of x else digits_of x))"

definition format_nat :: "nat \<Rightarrow> ustr" where
  "format_nat n = (if n < 10 ^ 8 then digits_of n else scientific8 n)"

text \<open>
  Line 204. A float is formatted by the host, a bool formats as the int it is. \<open>None\<close>
  stands for what is not modelled here: an int beyond \<open>2 ^ 53\<close>, and the values of other
  types, most of which the format refuses.
\<close>

fun format_8g :: "'f host \<Rightarrow> 'f pyval \<Rightarrow> ustr option" where
  "format_8g h (VInt i) =
     (if \<bar>i\<bar> < 2 ^ 53
      then Some (if i < 0 then ch CHR ''-'' # format_nat (nat (- i)) else format_nat (nat i))
      else None)"
| "format_8g h (VBool b) = Some (if b then u ''1'' else u ''0'')"
| "format_8g h (VFloat x) = Some (f_format h x)"
| "format_8g h v = None"

text \<open>
  The state \<open>run_math\<close> works on: the text of the display and the history table. On
  success the formatted result is logged and shown; any exception shows \<open>Error\<close>. The
  result is \<open>None\<close> where the evaluation or the formatting is not modelled.
\<close>

record calc =
  expression :: ustr
  history :: "ustr list"

definition run_math :: "'f host \<Rightarrow> bool \<Rightarrow> calc \<Rightarrow> calc option" where
  "run_math h is_deg st =
     (case evaluate h is_deg (expression st) of
        Return res \<Rightarrow>
          (case format_8g h res of
             Some formatted \<Rightarrow>
               Some (st\<lparr>expression := formatted,
                         history := history st @ [expression st @ u '' = '' @ formatted]\<rparr>)
           | None \<Rightarrow> None)
      | Raises x \<Rightarrow> Some (st\<lparr>expression := u ''Error''\<rparr>)
      | Unmodelled \<Rightarrow> None)"

subsection \<open>An example of a host\<close>

text \<open>
  A host in which a float is a real number and the arithmetic is exact, with the digits
  and blanks of Unicode 14. It takes the place of the interpreter where a statement has
  to be closed; it rounds nothing, and it refuses the operators on operands that are not
  real numbers.
\<close>

definition unicode_digit :: "nat \<Rightarrow> bool" where
  "unicode_digit c =
     (list_ex (\<lambda>s. s \<le> c \<and> c < s + 10)
        [48, 1632, 1776, 1984, 2406, 2534, 2662, 2790, 2918, 3046, 3174, 3302, 3430, 3558,
         3664, 3792, 3872, 4160, 4240, 6112, 6160, 6470, 6608, 6784, 6800, 6992, 7088, 7232,
         7248, 42528, 43216, 43264, 43472, 43504, 43600, 44016, 65296, 66720, 68912, 69734,
         69872, 69942, 70096, 70384, 70736, 70864, 71248, 71360, 71472, 71904, 72016, 72784,
         73040, 73120, 92768, 92864, 93008, 123200, 123632, 125264, 130032]
      \<or> (120782 \<le> c \<and> c < 120832))"

definition unicode_space :: "nat \<Rightarrow> bool" where
  "unicode_space c =
     (c \<in> set [133, 160, 5760, 8232, 8233, 8239, 8287, 12288] \<or> (8192 \<le> c \<and> c \<le> 8202))"

fun real_of_arg :: "real realarg \<Rightarrow> real" where
  "real_of_arg (RInt i) = real_of_int i"
| "real_of_arg (RFloat x) = x"

fun exact_math1 :: "mathfn \<Rightarrow> real \<Rightarrow> numexn + real" where
  "exact_math1 M_sin x = Inr (sin x)"
| "exact_math1 M_cos x = Inr (cos x)"
| "exact_math1 M_tan x = Inr (tan x)"
| "exact_math1 M_asin x = (if - 1 \<le> x \<and> x \<le> 1 then Inr (arcsin x) else Inl MathDomain)"
| "exact_math1 M_acos x = (if - 1 \<le> x \<and> x \<le> 1 then Inr (arccos x) else Inl MathDomain)"
| "exact_math1 M_atan x = Inr (arctan x)"
| "exact_math1 M_log10 x = (if 0 < x then Inr (log 10 x) else Inl MathDomain)"
| "exact_math1 M_log x = (if 0 < x then Inr (ln x) else Inl MathDomain)"
| "exact_math1 M_sqrt x = (if 0 \<le> x then Inr (sqrt x) else Inl MathDomain)"
| "exact_math1 M_radians x = Inr (x * pi / 180)"

fun exact_math :: "mathfn \<Rightarrow> real realarg list \<Rightarrow> numexn + real" where
  "exact_math m [a] = exact_math1 m (real_of_arg a)"
| "exact_math m [a, b] =
     (if 0 < real_of_arg a \<and> 0 < real_of_arg b
      then (if real_of_arg b = 1 then Inl ZeroDiv
            else Inr (ln (real_of_arg a) / ln (real_of_arg b)))
      else Inl MathDomain)"
| "exact_math m as = Inl MathDomain"

definition exact_pow :: "real \<Rightarrow> real \<Rightarrow> numexn + real pyval" where
  "exact_pow x y =
     (if x = 0 \<and> y < 0 then Inl ZeroDiv
      else if x = 0 then Inr (VFloat (if y = 0 then 1 else 0))
      else if 0 < x then Inr (VFloat (x powr y))
      else if y = real_of_int \<lfloor>y\<rfloor>
        then Inr (VFloat (if even \<lfloor>y\<rfloor> then \<bar>x\<bar> powr y else - (\<bar>x\<bar> powr y)))
      else Inr (VComplex (\<bar>x\<bar> powr y * cos (pi * y)) (\<bar>x\<bar> powr y * sin (pi * y))))"

text \<open>
  \<open>'{:.8g}'.format\<close> on a real number: eight significant digits, ties to the even
  neighbour, the zeros at the end of the fraction and a point with nothing behind it
  dropped; exponent notation when the decimal exponent, after the rounding, is below
  \<open>-4\<close> or above 7.
\<close>

definition round_half_even :: "real \<Rightarrow> int" where
  "round_half_even y =
     (let q = \<lfloor>y\<rfloor>; d = y - real_of_int q
      in if 1 / 2 < d \<or> (d = 1 / 2 \<and> odd q) then q + 1 else q)"

definition exact_format :: "real \<Rightarrow> ustr" where
  "exact_format x =
     (if x = 0 then u ''0''
      else
        (let e0 = \<lfloor>log 10 \<bar>x\<bar>\<rfloor>;
             y = (if e0 \<le> 7 then \<bar>x\<bar> * 10 ^ nat (7 - e0) else \<bar>x\<bar> / 10 ^ nat (e0 - 7));
             m0 = nat (round_half_even y);
             m = (if m0 = 10 ^ 8 then 10 ^ 7 else m0);
             e = (if m0 = 10 ^ 8 then e0 + 1 else e0);
             ds = digits_of m
         in (if x < 0 then u ''-'' else []) @
            (if e < - 4 \<or> 8 \<le> e
             then (let frac = strip_trailing_zeros (drop 1 ds)
                   in take 1 ds @ (if frac = [] then [] else ch CHR ''.'' # frac) @
                      [ch CHR ''e'', if e < 0 then ch CHR ''-'' else ch CHR ''+''] @
                      (if \<bar>e\<bar> < 10 then ch CHR ''0'' # digits_of (nat \<bar>e\<bar>)
                       else digits_of (nat \<bar>e\<bar>)))
             else if 0 \<le> e
             then (let frac = strip_trailing_zeros (drop (nat e + 1) ds)
                   in take (nat e + 1) ds @ (if frac = [] then [] else ch CHR ''.'' # frac))
             else u ''0.'' @ replicate (nat (- e - 1)) (ch CHR ''0'') @ strip_trailing_zeros ds)))"

definition exact_host :: "real host" where
  "exact_host =
     \<lparr>uni_digit = unicode_digit,
      uni_space = unicode_space,
      f_pi = pi,
      f_e = exp 1,
      f_of_int = real_of_int,
      f_literal = (\<lambda>m k. real m / 10 ^ k),
      f_is_zero = (\<lambda>x. x = 0),
      f_neg = uminus,
      f_add = (+),
      f_sub = (-),
      f_mul = (*),
      f_div = (/),
      f_mod = (\<lambda>x y. x - y * real_of_int \<lfloor>x / y\<rfloor>),
      f_pow = exact_pow,
      i_truediv = (\<lambda>i j. Some (real_of_int i / real_of_int j)),
      math_fn = exact_math,
      other_binop = (\<lambda>f a b. Inl TypeError_Operand),
      other_neg = (\<lambda>v. Inl TypeError_Operand),
      f_format = exact_format\<rparr>"

subsection \<open>Notions the statements use\<close>

text \<open>A real number that is zero: the int 0, \<open>False\<close>, or a float the host finds zero.\<close>

fun zero_number :: "'f host \<Rightarrow> 'f realarg \<Rightarrow> bool" where
  "zero_number h (RInt j) = (j = 0)"
| "zero_number h (RFloat z) = f_is_zero h z"

text \<open>A text without the characters the rewriting reacts to.\<close>

definition plain_text :: "ustr \<Rightarrow> bool" where
  "plain_text s = (list_all (\<lambda>c. c \<noteq> 960 \<and> c \<noteq> 8730 \<and> c \<noteq> ch CHR ''^'' \<and> c \<noteq> ch CHR ''p'' \<and>
      c \<noteq> ch CHR ''e'' \<and> c \<noteq> ch CHR ''('' \<and> c \<noteq> ch CHR '')'') s)"

text \<open>A run of ASCII digits, one at least.\<close>

definition digit_string :: "ustr \<Rightarrow> bool" where
  "digit_string ds = (ds \<noteq> [] \<and> list_all is_ascii_digit ds)"

text \<open>What may follow the digits of a decimal integer: the end of the text, or an ASCII
  character that is no digit, point, letter or underscore.\<close>

definition ends_number :: "ustr \<Rightarrow> bool" where
  "ends_number r = (case r of [] \<Rightarrow> True
     | c # _ \<Rightarrow> \<not> is_ascii_digit c \<and> c \<noteq> ch CHR ''.'' \<and> \<not> is_letter_or_underscore c \<and> c < 128)"



section \<open>Properties\<close>

subsection \<open>Evaluating the model on a given text\<close>

lemmas char_defs = u_def ch_def is_digit_def is_space_def is_ascii_digit_def is_ascii_letter_def
  is_letter_or_underscore_def

lemmas rewrite_defs = char_defs is_trig_name_def count_char_def auto_balance_def preprocess_def
  rewrite_text_def
  normalize_symbols_def replace_char_def strip_def Let_def

lemmas lex_defs = char_defs lex_one_def lex_number_def lex_name_def lex_point_def lex_string_def
  nat_of_digits_def is_ident_char_def is_plain_def continues_word_def reserved_words_def Let_def

lemmas call_defs = char_defs constants_def functions_table_def call_binary_def call_math_def
  accepts_count_def mixed_op_def

text \<open>\<open>evaluate\<close>, stage by stage.\<close>

lemma evaluate_stages:
  assumes "strip h s = s'" and "s' \<noteq> []" and "preprocess h m s' = t"
    and "take 1 t \<noteq> [32]" and "take 1 t \<noteq> [9]"
    and "tokenize t = Return ts" and "parse_tokens h ts = Return e"
  shows "evaluate h m s = (case eval_node h e of Inl x \<Rightarrow> Raises x | Inr v \<Rightarrow> Return v)"
  using assms by (simp add: evaluate_def py_parse_def)

lemma evaluate_x_plus_1: "evaluate h m (u ''x+1'') = Raises (NameError (u ''x''))"
proof -
  have "evaluate h m (u ''x+1'') =
      (case eval_node h (BinOp (Name (u ''x'')) Add (Constant (VInt 1))) of
         Inl x \<Rightarrow> Raises x | Inr v \<Rightarrow> Return v)"
  proof (rule evaluate_stages)
    show "strip h (u ''x+1'') = u ''x+1''" by (simp add: rewrite_defs)
    show "u ''x+1'' \<noteq> []" by (simp add: u_def)
    show "preprocess h m (u ''x+1'') = u ''x+1''" by (cases m) (simp_all add: rewrite_defs)
    show "take 1 (u ''x+1'') \<noteq> [32]" "take 1 (u ''x+1'') \<noteq> [9]" by (simp_all add: u_def)
    show "tokenize (u ''x+1'') = Return [T_Name (u ''x''), T_Plus, T_Int 1]" by (simp add: lex_defs)
    show "parse_tokens h [T_Name (u ''x''), T_Plus, T_Int 1] =
        Return (BinOp (Name (u ''x'')) Add (Constant (VInt 1)))"
      by (simp add: parse_tokens_def)
  qed
  then show ?thesis by (simp add: call_defs)
qed

lemma evaluate_foo_1: "evaluate h m (u ''foo(1)'') = Raises (NameError (u ''foo''))"
proof -
  have "evaluate h m (u ''foo(1)'') =
      (case eval_node h (Call (Name (u ''foo'')) [Constant (VInt 1)] []) of
         Inl x \<Rightarrow> Raises x | Inr v \<Rightarrow> Return v)"
  proof (rule evaluate_stages)
    show "strip h (u ''foo(1)'') = u ''foo(1)''" by (simp add: rewrite_defs)
    show "u ''foo(1)'' \<noteq> []" by (simp add: u_def)
    show "preprocess h m (u ''foo(1)'') = u ''foo(1)''" by (cases m) (simp_all add: rewrite_defs)
    show "take 1 (u ''foo(1)'') \<noteq> [32]" "take 1 (u ''foo(1)'') \<noteq> [9]" by (simp_all add: u_def)
    show "tokenize (u ''foo(1)'') = Return [T_Name (u ''foo''), T_LPar, T_Int 1, T_RPar]"
      by (simp add: lex_defs)
    show "parse_tokens h [T_Name (u ''foo''), T_LPar, T_Int 1, T_RPar] =
        Return (Call (Name (u ''foo'')) [Constant (VInt 1)] [])"
      by (simp add: parse_tokens_def)
  qed
  then show ?thesis by (simp add: call_defs)
qed

text \<open>
  C7. A name that is neither \<open>pi\<close> nor \<open>e\<close> evaluates to a \<open>NameError\<close> that carries
  the name (line 65), and so does a call whose target is a name outside the function
  table (line 72), whatever its arguments; \<open>x+1\<close> and \<open>foo(1)\<close> fail so in both angle
  modes. The code raises the one class \<open>NameError\<close> for both.
\<close>

theorem C7_unknown_names:
  "(x \<noteq> u ''pi'' \<and> x \<noteq> u ''e'' \<longrightarrow> eval_node h (Name x) = Inl (NameError x)) \<and>
   (f \<notin> set (map u [''sin'', ''cos'', ''tan'', ''asin'', ''acos'', ''atan'', ''log'', ''ln'',
                      ''sqrt'', ''radians'']) \<longrightarrow>
      eval_node h (Call (Name f) args kws) = Inl (NameError f)) \<and>
   evaluate h m (u ''x+1'') = Raises (NameError (u ''x'')) \<and>
   evaluate h m (u ''foo(1)'') = Raises (NameError (u ''foo''))"
  by (simp add: evaluate_x_plus_1 evaluate_foo_1 constants_def functions_table_def)

theorem C7_unknown_names_witness:
  "eval_node exact_host (Name (u ''x'')) = Inl (NameError (u ''x'')) \<and>
   eval_node exact_host (Call (Name (u ''foo'')) [Constant (VInt 1)] []) = Inl (NameError (u ''foo''))"
  using C7_unknown_names [where x = "u ''x''" and f = "u ''foo''" and h = exact_host
      and args = "[Constant (VInt 1)]" and kws = "[]"]
  by (simp add: u_def)

subsection \<open>Constants of any type (C1)\<close>

lemma evaluate_string_literal: "evaluate h m (u [CHR 0x27, CHR ''a'', CHR 0x27]) = Return (VStr (u ''a''))"
proof -
  have "evaluate h m (u [CHR 0x27, CHR ''a'', CHR 0x27]) =
      (case eval_node h (Constant (VStr (u ''a''))) of
         Inl x \<Rightarrow> Raises x | Inr v \<Rightarrow> Return v)"
  proof (rule evaluate_stages)
    show "strip h (u [CHR 0x27, CHR ''a'', CHR 0x27]) = u [CHR 0x27, CHR ''a'', CHR 0x27]" by (simp add: rewrite_defs)
    show "u [CHR 0x27, CHR ''a'', CHR 0x27] \<noteq> []" by (simp add: u_def)
    show "preprocess h m (u [CHR 0x27, CHR ''a'', CHR 0x27]) = u [CHR 0x27, CHR ''a'', CHR 0x27]" by (cases m) (simp_all add: rewrite_defs)
    show "take 1 (u [CHR 0x27, CHR ''a'', CHR 0x27]) \<noteq> [32]" "take 1 (u [CHR 0x27, CHR ''a'', CHR 0x27]) \<noteq> [9]" by (simp_all add: u_def)
    show "tokenize (u [CHR 0x27, CHR ''a'', CHR 0x27]) = Return [T_String (u ''a'')]"
      by (simp add: lex_defs)
    show "parse_tokens h [T_String (u ''a'')] =
        Return (Constant (VStr (u ''a'')))"
      by (simp add: parse_tokens_def)
  qed
  then show ?thesis by (simp add: call_defs)
qed

lemma evaluate_True: "evaluate h m (u ''True'') = Return (VBool True)"
proof -
  have "evaluate h m (u ''True'') =
      (case eval_node h (Constant (VBool True)) of
         Inl x \<Rightarrow> Raises x | Inr v \<Rightarrow> Return v)"
  proof (rule evaluate_stages)
    show "strip h (u ''True'') = u ''True''" by (simp add: rewrite_defs)
    show "u ''True'' \<noteq> []" by (simp add: u_def)
    show "preprocess h m (u ''True'') = u ''True''" by (cases m) (simp_all add: rewrite_defs)
    show "take 1 (u ''True'') \<noteq> [32]" "take 1 (u ''True'') \<noteq> [9]" by (simp_all add: u_def)
    show "tokenize (u ''True'') = Return [T_True]"
      by (simp add: lex_defs)
    show "parse_tokens h [T_True] =
        Return (Constant (VBool True))"
      by (simp add: parse_tokens_def)
  qed
  then show ?thesis by (simp add: call_defs)
qed

lemma evaluate_None: "evaluate h m (u ''None'') = Return VNone"
proof -
  have "evaluate h m (u ''None'') =
      (case eval_node h (Constant VNone) of
         Inl x \<Rightarrow> Raises x | Inr v \<Rightarrow> Return v)"
  proof (rule evaluate_stages)
    show "strip h (u ''None'') = u ''None''" by (simp add: rewrite_defs)
    show "u ''None'' \<noteq> []" by (simp add: u_def)
    show "preprocess h m (u ''None'') = u ''None''" by (cases m) (simp_all add: rewrite_defs)
    show "take 1 (u ''None'') \<noteq> [32]" "take 1 (u ''None'') \<noteq> [9]" by (simp_all add: u_def)
    show "tokenize (u ''None'') = Return [T_None]"
      by (simp add: lex_defs)
    show "parse_tokens h [T_None] =
        Return (Constant VNone)"
      by (simp add: parse_tokens_def)
  qed
  then show ?thesis by (simp add: call_defs)
qed


text \<open>
  C1. The claim fails on the code: a string literal, \<open>True\<close> and \<open>None\<close> parse to an
  \<open>ast.Constant\<close>, and line 61 returns the value of any constant, so \<open>evaluate\<close>
  returns a string, a bool and \<open>None\<close>. (The nodes of the other classes are refused, by
  line 74.)
\<close>

theorem C1_constant_of_any_type_returned:
  "evaluate h m (u [CHR 0x27, CHR ''a'', CHR 0x27]) = Return (VStr (u ''a'')) \<and>
   evaluate h m (u ''True'') = Return (VBool True) \<and>
   evaluate h m (u ''None'') = Return VNone"
  by (simp add: evaluate_string_literal evaluate_True evaluate_None)

lemma tree_sin_90_plus_1: "evaluate h True (u ''sin(90)+1'') =
      (case eval_node h (Call (Name (u ''sin'')) [BinOp (Call (Name (u ''radians'')) [Constant (VInt 90)] []) Add (Constant (VInt 1))] []) of
         Inl x \<Rightarrow> Raises x | Inr v \<Rightarrow> Return v)"
proof (rule evaluate_stages)
  show "strip h (u ''sin(90)+1'') = u ''sin(90)+1''" by (simp add: rewrite_defs)
  show "u ''sin(90)+1'' \<noteq> []" by (simp add: u_def)
  show "preprocess h True (u ''sin(90)+1'') = u ''sin(radians(90)+1)''" by (simp add: rewrite_defs)
  show "take 1 (u ''sin(radians(90)+1)'') \<noteq> [32]" "take 1 (u ''sin(radians(90)+1)'') \<noteq> [9]" by (simp_all add: u_def)
  show "tokenize (u ''sin(radians(90)+1)'') = Return [T_Name (u ''sin''), T_LPar, T_Name (u ''radians''), T_LPar, T_Int 90, T_RPar, T_Plus, T_Int 1, T_RPar]"
    by (simp add: lex_defs)
  show "parse_tokens h [T_Name (u ''sin''), T_LPar, T_Name (u ''radians''), T_LPar, T_Int 90, T_RPar, T_Plus, T_Int 1, T_RPar] =
      Return (Call (Name (u ''sin'')) [BinOp (Call (Name (u ''radians'')) [Constant (VInt 90)] []) Add (Constant (VInt 1))] [])"
    by (simp add: parse_tokens_def)
qed


lemma preprocess_sin_90_plus_1:
  "preprocess h True (u ''sin(90)+1'') = u ''sin(radians(90)+1)''"
  by (simp add: rewrite_defs)

lemma parse_sin_radians_90_plus_1:
  "py_parse h (u ''sin(radians(90)+1)'') =
     Return (Call (Name (u ''sin''))
       [BinOp (Call (Name (u ''radians'')) [Constant (VInt 90)] []) Add (Constant (VInt 1))] [])"
proof -
  have "tokenize (u ''sin(radians(90)+1)'') = Return [T_Name (u ''sin''), T_LPar, T_Name (u ''radians''), T_LPar, T_Int 90, T_RPar, T_Plus, T_Int 1, T_RPar]"
    by (simp add: lex_defs)
  then show ?thesis
    by (simp add: py_parse_def parse_tokens_def u_def)
qed

lemma exact_sin_90_plus_1:
  "evaluate exact_host True (u ''sin(90)+1'') = Return (VFloat (cos 1))"
proof -
  have "sin (90 * pi / 180 + 1 :: real) = cos 1"
    by (simp add: sin_add)
  then show ?thesis
    unfolding tree_sin_90_plus_1 by (simp add: call_defs exact_host_def)
qed

text \<open>
  C2. The claim fails on the code: the replacement of line 50 opens \<open>radians(\<close> and
  closes nothing, and line 54 puts the missing parenthesis at the end of the whole text.
  So in \<open>sin(90)+1\<close> the call to \<open>radians\<close> takes \<open>90)+1\<close>, not \<open>90\<close>: the text
  becomes \<open>sin(radians(90)+1)\<close>, which parses as the sine of a sum, and with exact
  arithmetic its value is \<open>cos 1\<close>, not 2.
\<close>

theorem C2_radians_closed_at_end_of_text:
  "preprocess h True (u ''sin(90)+1'') = u ''sin(radians(90)+1)'' \<and>
   py_parse h (u ''sin(radians(90)+1)'') =
     Return (Call (Name (u ''sin''))
       [BinOp (Call (Name (u ''radians'')) [Constant (VInt 90)] []) Add (Constant (VInt 1))] []) \<and>
   evaluate exact_host True (u ''sin(90)+1'') = Return (VFloat (cos 1))"
  by (simp add: preprocess_sin_90_plus_1 parse_sin_radians_90_plus_1 exact_sin_90_plus_1)

lemma evaluate_1_div_0: "evaluate h m (u ''1/0'') = Raises ZeroDivisionError"
proof -
  have "evaluate h m (u ''1/0'') =
      (case eval_node h (BinOp (Constant (VInt 1)) Div (Constant (VInt 0))) of
         Inl x \<Rightarrow> Raises x | Inr v \<Rightarrow> Return v)"
  proof (rule evaluate_stages)
    show "strip h (u ''1/0'') = u ''1/0''" by (simp add: rewrite_defs)
    show "u ''1/0'' \<noteq> []" by (simp add: u_def)
    show "preprocess h m (u ''1/0'') = u ''1/0''" by (cases m) (simp_all add: rewrite_defs)
    show "take 1 (u ''1/0'') \<noteq> [32]" "take 1 (u ''1/0'') \<noteq> [9]" by (simp_all add: u_def)
    show "tokenize (u ''1/0'') = Return [T_Int 1, T_Slash, T_Int 0]"
      by (simp add: lex_defs)
    show "parse_tokens h [T_Int 1, T_Slash, T_Int 0] =
        Return (BinOp (Constant (VInt 1)) Div (Constant (VInt 0)))"
      by (simp add: parse_tokens_def)
  qed
  then show ?thesis by (simp add: call_defs)
qed

lemma evaluate_x_div_0: "evaluate exact_host True (u ''x/0'') = Raises (NameError (u ''x''))"
proof -
  have "evaluate exact_host True (u ''x/0'') =
      (case eval_node exact_host (BinOp (Name (u ''x'')) Div (Constant (VInt 0))) of
         Inl x \<Rightarrow> Raises x | Inr v \<Rightarrow> Return v)"
  proof (rule evaluate_stages)
    show "strip exact_host (u ''x/0'') = u ''x/0''" by (simp add: rewrite_defs exact_host_def unicode_space_def unicode_digit_def)
    show "u ''x/0'' \<noteq> []" by (simp add: u_def)
    show "preprocess exact_host True (u ''x/0'') = u ''x/0''" by (simp add: rewrite_defs)
    show "take 1 (u ''x/0'') \<noteq> [32]" "take 1 (u ''x/0'') \<noteq> [9]" by (simp_all add: u_def)
    show "tokenize (u ''x/0'') = Return [T_Name (u ''x''), T_Slash, T_Int 0]"
      by (simp add: lex_defs)
    show "parse_tokens exact_host [T_Name (u ''x''), T_Slash, T_Int 0] =
        Return (BinOp (Name (u ''x'')) Div (Constant (VInt 0)))"
      by (simp add: parse_tokens_def)
  qed
  then show ?thesis by (simp add: call_defs exact_host_def unicode_space_def unicode_digit_def)
qed

lemma evaluate_None_div_0: "evaluate exact_host True (u ''None/0'') = Raises TypeError_Operand"
proof -
  have "evaluate exact_host True (u ''None/0'') =
      (case eval_node exact_host (BinOp (Constant VNone) Div (Constant (VInt 0))) of
         Inl x \<Rightarrow> Raises x | Inr v \<Rightarrow> Return v)"
  proof (rule evaluate_stages)
    show "strip exact_host (u ''None/0'') = u ''None/0''" by (simp add: rewrite_defs exact_host_def unicode_space_def unicode_digit_def)
    show "u ''None/0'' \<noteq> []" by (simp add: u_def)
    show "preprocess exact_host True (u ''None/0'') = u ''None/0''" by (simp add: rewrite_defs)
    show "take 1 (u ''None/0'') \<noteq> [32]" "take 1 (u ''None/0'') \<noteq> [9]" by (simp_all add: u_def)
    show "tokenize (u ''None/0'') = Return [T_None, T_Slash, T_Int 0]"
      by (simp add: lex_defs)
    show "parse_tokens exact_host [T_None, T_Slash, T_Int 0] =
        Return (BinOp (Constant VNone) Div (Constant (VInt 0)))"
      by (simp add: parse_tokens_def)
  qed
  then show ?thesis by (simp add: call_defs exact_host_def unicode_space_def unicode_digit_def)
qed


lemma zero_divisor_raises:
  assumes "f = Op_truediv \<or> f = Op_mod" and "zero_number h y"
    and "(\<exists>i j. x = RInt i \<and> y = RInt j) \<or> (\<exists>x'. as_float h x = Inr x')"
    and "f_is_zero h (f_of_int h 0)"
  shows "real_op h f x y = Inl ZeroDivisionError"
proof (cases y)
  case (RInt j)
  with assms(2) have y: "y = RInt 0" by simp
  show ?thesis
  proof (cases x)
    case (RInt i)
    with y assms(1) show ?thesis by auto
  next
    case (RFloat w)
    have "as_float h (RInt 0) = Inr (f_of_int h 0)" by simp
    with RFloat y assms(1,4) show ?thesis by (auto simp: mixed_op_def)
  qed
next
  case (RFloat z)
  with assms(2) have z: "f_is_zero h z" by simp
  from RFloat assms(3) obtain x' where x': "as_float h x = Inr x'" by auto
  have "mixed_op h f x y = Inl ZeroDivisionError"
    using assms(1) z x' RFloat by (auto simp: mixed_op_def)
  with RFloat show ?thesis by (cases x) simp_all
qed

text \<open>
  C6, as amended. A division or a modulo raises \<open>ZeroDivisionError\<close> when both operands
  evaluate to real numbers (int, bool, float) and the right one is zero, provided that,
  when one operand is a float, the int on the left is small enough to become a float
  (it is converted before the divisor is looked at), on a host whose float of the int 0 is
  zero. \<open>1/0\<close> raises it in both angle modes.
\<close>

theorem C6_zero_divisor:
  "((opr = Div \<or> opr = Mod) \<and>
    eval_node h l = Inr a \<and> to_real a = Some x \<and>
    eval_node h r = Inr b \<and> to_real b = Some y \<and> zero_number h y \<and>
    ((\<exists>i j. x = RInt i \<and> y = RInt j) \<or> (\<exists>x'. as_float h x = Inr x')) \<and>
    f_is_zero h (f_of_int h 0)
    \<longrightarrow> eval_node h (BinOp l opr r) = Inl ZeroDivisionError) \<and>
   evaluate h m (u ''1/0'') = Raises ZeroDivisionError"
proof -
  have "eval_node h (BinOp l opr r) = Inl ZeroDivisionError"
    if "opr = Div \<or> opr = Mod" and "eval_node h l = Inr a" and "to_real a = Some x"
      and "eval_node h r = Inr b" and "to_real b = Some y" and "zero_number h y"
      and "(\<exists>i j. x = RInt i \<and> y = RInt j) \<or> (\<exists>x'. as_float h x = Inr x')"
      and "f_is_zero h (f_of_int h 0)"
  proof -
    from that(1) obtain f where f: "operators opr = Some f" "f = Op_truediv \<or> f = Op_mod"
      by auto
    from f(2) that(6-8) have "real_op h f x y = Inl ZeroDivisionError"
      by (rule zero_divisor_raises)
    with f(1) that(2-5) show ?thesis
      by (simp add: call_binary_def)
  qed
  then show ?thesis
    by (simp add: evaluate_1_div_0)
qed

theorem C6_zero_divisor_witness:
  "eval_node exact_host (BinOp (Constant (VFloat 1)) Mod (Constant (VInt 0)))
     = Inl ZeroDivisionError"
  using C6_zero_divisor [where h = exact_host and opr = Mod and l = "Constant (VFloat 1)"
      and r = "Constant (VInt 0)" and a = "VFloat 1" and b = "VInt 0"
      and x = "RFloat 1" and y = "RInt 0"]
  by (simp add: exact_host_def)

text \<open>
  The claim as it stands fails: in \<open>x/0\<close> and in \<open>None/0\<close> the right operand is zero
  and the error is not \<open>ZeroDivisionError\<close>. The left operand is evaluated first and
  \<open>x\<close> is unknown; \<open>None\<close> is no number.
\<close>

theorem C6_counterexample:
  "evaluate exact_host True (u ''x/0'') = Raises (NameError (u ''x'')) \<and>
   evaluate exact_host True (u ''None/0'') = Raises TypeError_Operand"
  by (simp add: evaluate_x_div_0 evaluate_None_div_0)

lemma tree_ln_8_2: "evaluate h m (u ''ln(8,2)'') =
      (case eval_node h (Call (Name (u ''ln'')) [Constant (VInt 8), Constant (VInt 2)] []) of
         Inl x \<Rightarrow> Raises x | Inr v \<Rightarrow> Return v)"
proof (rule evaluate_stages)
  show "strip h (u ''ln(8,2)'') = u ''ln(8,2)''" by (simp add: rewrite_defs)
  show "u ''ln(8,2)'' \<noteq> []" by (simp add: u_def)
  show "preprocess h m (u ''ln(8,2)'') = u ''ln(8,2)''" by (cases m) (simp_all add: rewrite_defs)
  show "take 1 (u ''ln(8,2)'') \<noteq> [32]" "take 1 (u ''ln(8,2)'') \<noteq> [9]" by (simp_all add: u_def)
  show "tokenize (u ''ln(8,2)'') = Return [T_Name (u ''ln''), T_LPar, T_Int 8, T_Comma, T_Int 2, T_RPar]"
    by (simp add: lex_defs)
  show "parse_tokens h [T_Name (u ''ln''), T_LPar, T_Int 8, T_Comma, T_Int 2, T_RPar] =
      Return (Call (Name (u ''ln'')) [Constant (VInt 8), Constant (VInt 2)] [])"
    by (simp add: parse_tokens_def)
qed

lemma sequence_results_length:
  "sequence_results rs = Inr vs \<Longrightarrow> length vs = length rs"
proof (induction rs arbitrary: vs)
  case Nil
  then show ?case by simp
next
  case (Cons r rs)
  then show ?case
    by (cases r) (auto split: sum.splits)
qed

lemma functions_table_names:
  assumes "f \<in> set (map u [''sin'', ''cos'', ''tan'', ''asin'', ''acos'', ''atan'', ''log'',
                            ''ln'', ''sqrt'', ''radians''])"
  shows "\<exists>m. functions_table f = Some m \<and> (m = M_log \<longleftrightarrow> f = u ''ln'')"
  using assms by (auto simp: functions_table_def u_def)

lemma evaluate_sin_x_1: "evaluate h False (u ''sin(x,1)'') = Raises (NameError (u ''x''))"
proof -
  have "evaluate h False (u ''sin(x,1)'') =
      (case eval_node h (Call (Name (u ''sin'')) [Name (u ''x''), Constant (VInt 1)] []) of
         Inl x \<Rightarrow> Raises x | Inr v \<Rightarrow> Return v)"
  proof (rule evaluate_stages)
    show "strip h (u ''sin(x,1)'') = u ''sin(x,1)''" by (simp add: rewrite_defs)
    show "u ''sin(x,1)'' \<noteq> []" by (simp add: u_def)
    show "preprocess h False (u ''sin(x,1)'') = u ''sin(x,1)''" by (simp add: rewrite_defs)
    show "take 1 (u ''sin(x,1)'') \<noteq> [32]" "take 1 (u ''sin(x,1)'') \<noteq> [9]" by (simp_all add: u_def)
    show "tokenize (u ''sin(x,1)'') = Return [T_Name (u ''sin''), T_LPar, T_Name (u ''x''), T_Comma, T_Int 1, T_RPar]"
      by (simp add: lex_defs)
    show "parse_tokens h [T_Name (u ''sin''), T_LPar, T_Name (u ''x''), T_Comma, T_Int 1, T_RPar] =
        Return (Call (Name (u ''sin'')) [Name (u ''x''), Constant (VInt 1)] [])"
      by (simp add: parse_tokens_def)
  qed
  then show ?thesis by (simp add: call_defs)
qed

lemma sequence_results_values: "sequence_results (map Inr vs) = Inr vs"
  by (induction vs) simp_all

lemma sequence_results_first_error: "sequence_results (map Inr pre @ Inl e # post) = Inl e"
  by (induction pre) simp_all

text \<open>
  C4, as amended. \<open>ln\<close> is \<open>math.log\<close>, which takes a number and an optional base; the
  nine other functions take one number. A call to a function of the table with another
  count of positional arguments never returns a value: when the arguments evaluate to
  values up to one that raises, the call raises that exception, the one of the first
  argument that fails; when all arguments evaluate, it raises the \<open>TypeError\<close> of the
  argument count. A call of \<open>ln\<close> with two arguments that evaluate to real numbers is
  \<open>math.log\<close> of the two, as for \<open>ln(8,2)\<close>.
\<close>

theorem C4_argument_count:
  "(f \<in> set (map u [''sin'', ''cos'', ''tan'', ''asin'', ''acos'', ''atan'', ''log'', ''ln'',
                      ''sqrt'', ''radians'']) \<and>
    \<not> (length args = 1 \<or> (f = u ''ln'' \<and> length args = 2))
    \<longrightarrow> (\<exists>e. eval_node h (Call (Name f) args kws) = Inl e) \<and>
        (\<forall>pre e post. map (eval_node h) args = map Inr pre @ Inl e # post
           \<longrightarrow> eval_node h (Call (Name f) args kws) = Inl e) \<and>
        (\<forall>vs. map (eval_node h) args = map Inr vs
           \<longrightarrow> eval_node h (Call (Name f) args kws) = Inl TypeError_ArgCount)) \<and>
   (eval_node h a = Inr va \<and> to_real va = Some x \<and> eval_node h b = Inr vb \<and> to_real vb = Some y
    \<longrightarrow> eval_node h (Call (Name (u ''ln'')) [a, b] kws) =
          (case math_fn h M_log [x, y] of
             Inl e \<Rightarrow> Inl (lift_numexn e) | Inr z \<Rightarrow> Inr (VFloat z))) \<and>
   evaluate h m (u ''ln(8,2)'') =
     (case math_fn h M_log [RInt 8, RInt 2] of
        Inl e \<Rightarrow> Raises (lift_numexn e) | Inr x \<Rightarrow> Return (VFloat x))"
  (is "(?mismatch \<longrightarrow> ?fails \<and> ?first \<and> ?count) \<and> (?reals \<longrightarrow> ?log) \<and> ?example")
proof -
  have call: "?fails \<and> ?first \<and> ?count" if "?mismatch"
  proof -
    from that have names: "f \<in> set (map u [''sin'', ''cos'', ''tan'', ''asin'', ''acos'', ''atan'',
        ''log'', ''ln'', ''sqrt'', ''radians''])"
      and count: "\<not> (length args = 1 \<or> (f = u ''ln'' \<and> length args = 2))"
      by blast+
    from names obtain m where m: "functions_table f = Some m" "m = M_log \<longleftrightarrow> f = u ''ln''"
      using functions_table_names by blast
    have first: "eval_node h (Call (Name f) args kws) = Inl e"
      if "map (eval_node h) args = map Inr pre @ Inl e # post" for pre e post
      using that m(1) by (simp add: sequence_results_first_error)
    have all: "eval_node h (Call (Name f) args kws) = Inl TypeError_ArgCount"
      if "map (eval_node h) args = map Inr vs" for vs
    proof -
      from that have "length vs = length args"
        by (metis length_map)
      with count m(2) have "\<not> accepts_count m (length vs)"
        by (auto simp: accepts_count_def)
      with m(1) that show ?thesis
        by (simp add: sequence_results_values call_math_def)
    qed
    have "\<exists>e. eval_node h (Call (Name f) args kws) = Inl e"
    proof (cases "sequence_results (map (eval_node h) args)")
      case (Inl e)
      with m(1) show ?thesis by simp
    next
      case (Inr vs)
      then have "length vs = length args"
        using sequence_results_length by fastforce
      with count m(2) have "\<not> accepts_count m (length vs)"
        by (auto simp: accepts_count_def)
      with m(1) Inr show ?thesis
        by (simp add: call_math_def)
    qed
    with first all show ?thesis by blast
  qed
  have log: "?log" if "?reals"
    using that by (simp add: functions_table_def u_def call_math_def accepts_count_def)
  have "?example"
    unfolding tree_ln_8_2 by (simp add: call_defs split: sum.splits)
  with call log show ?thesis by blast
qed

theorem C4_argument_count_witness:
  "eval_node exact_host (Call (Name (u ''sin'')) [Constant (VInt 1), Constant (VInt 2)] [])
     = Inl TypeError_ArgCount \<and>
   eval_node exact_host (Call (Name (u ''sin'')) [Constant (VInt 1), Name (u ''x''), Name (u ''y'')] [])
     = Inl (NameError (u ''x'')) \<and>
   eval_node exact_host (Call (Name (u ''ln'')) [Constant (VInt 8), Constant (VFloat 2)] [])
     = Inr (VFloat (ln 8 / ln 2))"
proof -
  let ?two = "[Constant (VInt 1), Constant (VInt 2)] :: real expr list"
  let ?three = "[Constant (VInt 1), Name (u ''x''), Name (u ''y'')] :: real expr list"
  have sin: "u ''sin'' \<in> set (map u [''sin'', ''cos'', ''tan'', ''asin'', ''acos'', ''atan'',
      ''log'', ''ln'', ''sqrt'', ''radians''])" "u ''sin'' \<noteq> u ''ln''"
    by (simp_all add: u_def)
  have failing: "map (eval_node exact_host) ?three =
      map Inr [VInt 1] @ Inl (NameError (u ''x'')) # [Inl (NameError (u ''y''))]"
    by (simp add: constants_def u_def)
  have vals: "map (eval_node exact_host) ?two = map Inr [VInt 1, VInt 2]"
    by simp
  have reals: "eval_node exact_host (Constant (VInt 8)) = Inr (VInt 8) \<and>
      to_real (VInt 8 :: real pyval) = Some (RInt 8) \<and>
      eval_node exact_host (Constant (VFloat 2)) = Inr (VFloat 2) \<and>
      to_real (VFloat (2::real)) = Some (RFloat 2)"
    by simp
  have log: "math_fn exact_host M_log [RInt 8, RFloat 2] = Inr (ln 8 / ln 2)"
    by (simp add: exact_host_def)
  have count: "\<not> (length ?two = 1 \<or> (u ''sin'' = u ''ln'' \<and> length ?two = 2))"
    "\<not> (length ?three = 1 \<or> (u ''sin'' = u ''ln'' \<and> length ?three = 2))"
    by (simp_all add: u_def)
  have "eval_node exact_host (Call (Name (u ''sin'')) ?two []) = Inl TypeError_ArgCount"
    using C4_argument_count [where f = "u ''sin''" and h = exact_host and args = ?two
        and kws = "[]" and m = True
        and a = "Constant (VInt 8)" and va = "VInt 8" and x = "RInt 8"
        and b = "Constant (VFloat 2)" and vb = "VFloat 2" and y = "RFloat 2"]
      sin(1) count(1) vals
    by blast
  moreover have "eval_node exact_host (Call (Name (u ''sin'')) ?three []) =
      Inl (NameError (u ''x''))"
    using C4_argument_count [where f = "u ''sin''" and h = exact_host and args = ?three
        and kws = "[]" and m = True
        and a = "Constant (VInt 8)" and va = "VInt 8" and x = "RInt 8"
        and b = "Constant (VFloat 2)" and vb = "VFloat 2" and y = "RFloat 2"]
      sin(1) count(2) failing
    by blast
  moreover have "eval_node exact_host
      (Call (Name (u ''ln'')) [Constant (VInt 8), Constant (VFloat 2)] []) =
      (case math_fn exact_host M_log [RInt 8, RFloat 2] of
         Inl e \<Rightarrow> Inl (lift_numexn e) | Inr z \<Rightarrow> Inr (VFloat z))"
    using C4_argument_count [where f = "u ''sin''" and h = exact_host and args = ?two
        and kws = "[]" and m = True
        and a = "Constant (VInt 8)" and va = "VInt 8" and x = "RInt 8"
        and b = "Constant (VFloat 2)" and vb = "VFloat 2" and y = "RFloat 2"] reals
    by blast
  ultimately show ?thesis
    unfolding log by simp
qed

text \<open>
  The claim as it stands fails twice: \<open>ln\<close> with two arguments is no arity error, it is
  the logarithm of 8 to the base 2; and \<open>sin\<close> with two arguments, the first of them
  unknown, raises the \<open>NameError\<close> of that argument and no arity error.
\<close>

theorem C4_counterexample:
  "evaluate exact_host True (u ''ln(8,2)'') = Return (VFloat (ln 8 / ln 2)) \<and>
   evaluate exact_host False (u ''sin(x,1)'') = Raises (NameError (u ''x''))"
proof -
  have "evaluate exact_host True (u ''ln(8,2)'') =
     (case math_fn exact_host M_log [RInt 8, RInt 2] of
        Inl e \<Rightarrow> Raises (lift_numexn e) | Inr x \<Rightarrow> Return (VFloat x))"
    unfolding tree_ln_8_2 by (simp add: call_defs split: sum.splits)
  then have "evaluate exact_host True (u ''ln(8,2)'') = Return (VFloat (ln 8 / ln 2))"
    by (simp add: exact_host_def)
  then show ?thesis
    using evaluate_sin_x_1 [of exact_host] by blast
qed

lemma evaluate_minus_2_pow_2: "evaluate h m (u ''-2^2'') = Return (VInt (- 4))"
proof -
  have "evaluate h m (u ''-2^2'') =
      (case eval_node h (UnaryOp USub (BinOp (Constant (VInt 2)) Pow_op (Constant (VInt 2)))) of
         Inl x \<Rightarrow> Raises x | Inr v \<Rightarrow> Return v)"
  proof (rule evaluate_stages)
    show "strip h (u ''-2^2'') = u ''-2^2''" by (simp add: rewrite_defs)
    show "u ''-2^2'' \<noteq> []" by (simp add: u_def)
    show "preprocess h m (u ''-2^2'') = u ''-2**2''" by (cases m) (simp_all add: rewrite_defs)
    show "take 1 (u ''-2**2'') \<noteq> [32]" "take 1 (u ''-2**2'') \<noteq> [9]" by (simp_all add: u_def)
    show "tokenize (u ''-2**2'') = Return [T_Minus, T_Int 2, T_DoubleStar, T_Int 2]"
      by (simp add: lex_defs)
    show "parse_tokens h [T_Minus, T_Int 2, T_DoubleStar, T_Int 2] =
        Return (UnaryOp USub (BinOp (Constant (VInt 2)) Pow_op (Constant (VInt 2))))"
      by (simp add: parse_tokens_def)
  qed
  then show ?thesis by (simp add: call_defs)
qed

lemma evaluate_paren_minus_2_pow_2: "evaluate h m (u ''(-2)^2'') = Return (VInt 4)"
proof -
  have "evaluate h m (u ''(-2)^2'') =
      (case eval_node h (BinOp (UnaryOp USub (Constant (VInt 2))) Pow_op (Constant (VInt 2))) of
         Inl x \<Rightarrow> Raises x | Inr v \<Rightarrow> Return v)"
  proof (rule evaluate_stages)
    show "strip h (u ''(-2)^2'') = u ''(-2)^2''" by (simp add: rewrite_defs)
    show "u ''(-2)^2'' \<noteq> []" by (simp add: u_def)
    show "preprocess h m (u ''(-2)^2'') = u ''(-2)**2''" by (cases m) (simp_all add: rewrite_defs)
    show "take 1 (u ''(-2)**2'') \<noteq> [32]" "take 1 (u ''(-2)**2'') \<noteq> [9]" by (simp_all add: u_def)
    show "tokenize (u ''(-2)**2'') = Return [T_LPar, T_Minus, T_Int 2, T_RPar, T_DoubleStar, T_Int 2]"
      by (simp add: lex_defs)
    show "parse_tokens h [T_LPar, T_Minus, T_Int 2, T_RPar, T_DoubleStar, T_Int 2] =
        Return (BinOp (UnaryOp USub (Constant (VInt 2))) Pow_op (Constant (VInt 2)))"
      by (simp add: parse_tokens_def)
  qed
  then show ?thesis by (simp add: call_defs)
qed

lemma evaluate_2_pow_3_pow_2: "evaluate h m (u ''2^3^2'') = Return (VInt 512)"
proof -
  have "evaluate h m (u ''2^3^2'') =
      (case eval_node h (BinOp (Constant (VInt 2)) Pow_op (BinOp (Constant (VInt 3)) Pow_op (Constant (VInt 2)))) of
         Inl x \<Rightarrow> Raises x | Inr v \<Rightarrow> Return v)"
  proof (rule evaluate_stages)
    show "strip h (u ''2^3^2'') = u ''2^3^2''" by (simp add: rewrite_defs)
    show "u ''2^3^2'' \<noteq> []" by (simp add: u_def)
    show "preprocess h m (u ''2^3^2'') = u ''2**3**2''" by (cases m) (simp_all add: rewrite_defs)
    show "take 1 (u ''2**3**2'') \<noteq> [32]" "take 1 (u ''2**3**2'') \<noteq> [9]" by (simp_all add: u_def)
    show "tokenize (u ''2**3**2'') = Return [T_Int 2, T_DoubleStar, T_Int 3, T_DoubleStar, T_Int 2]"
      by (simp add: lex_defs)
    show "parse_tokens h [T_Int 2, T_DoubleStar, T_Int 3, T_DoubleStar, T_Int 2] =
        Return (BinOp (Constant (VInt 2)) Pow_op (BinOp (Constant (VInt 3)) Pow_op (Constant (VInt 2))))"
      by (simp add: parse_tokens_def)
  qed
  then show ?thesis by (simp add: call_defs)
qed

lemma evaluate_2_plus_3_times_4: "evaluate h m (u ''2+3*4'') = Return (VInt 14)"
proof -
  have "evaluate h m (u ''2+3*4'') =
      (case eval_node h (BinOp (Constant (VInt 2)) Add (BinOp (Constant (VInt 3)) Mult (Constant (VInt 4)))) of
         Inl x \<Rightarrow> Raises x | Inr v \<Rightarrow> Return v)"
  proof (rule evaluate_stages)
    show "strip h (u ''2+3*4'') = u ''2+3*4''" by (simp add: rewrite_defs)
    show "u ''2+3*4'' \<noteq> []" by (simp add: u_def)
    show "preprocess h m (u ''2+3*4'') = u ''2+3*4''" by (cases m) (simp_all add: rewrite_defs)
    show "take 1 (u ''2+3*4'') \<noteq> [32]" "take 1 (u ''2+3*4'') \<noteq> [9]" by (simp_all add: u_def)
    show "tokenize (u ''2+3*4'') = Return [T_Int 2, T_Plus, T_Int 3, T_Star, T_Int 4]"
      by (simp add: lex_defs)
    show "parse_tokens h [T_Int 2, T_Plus, T_Int 3, T_Star, T_Int 4] =
        Return (BinOp (Constant (VInt 2)) Add (BinOp (Constant (VInt 3)) Mult (Constant (VInt 4))))"
      by (simp add: parse_tokens_def)
  qed
  then show ?thesis by (simp add: call_defs)
qed

lemma evaluate_paren_2_plus_3_times_4: "evaluate h m (u ''(2+3)*4'') = Return (VInt 20)"
proof -
  have "evaluate h m (u ''(2+3)*4'') =
      (case eval_node h (BinOp (BinOp (Constant (VInt 2)) Add (Constant (VInt 3))) Mult (Constant (VInt 4))) of
         Inl x \<Rightarrow> Raises x | Inr v \<Rightarrow> Return v)"
  proof (rule evaluate_stages)
    show "strip h (u ''(2+3)*4'') = u ''(2+3)*4''" by (simp add: rewrite_defs)
    show "u ''(2+3)*4'' \<noteq> []" by (simp add: u_def)
    show "preprocess h m (u ''(2+3)*4'') = u ''(2+3)*4''" by (cases m) (simp_all add: rewrite_defs)
    show "take 1 (u ''(2+3)*4'') \<noteq> [32]" "take 1 (u ''(2+3)*4'') \<noteq> [9]" by (simp_all add: u_def)
    show "tokenize (u ''(2+3)*4'') = Return [T_LPar, T_Int 2, T_Plus, T_Int 3, T_RPar, T_Star, T_Int 4]"
      by (simp add: lex_defs)
    show "parse_tokens h [T_LPar, T_Int 2, T_Plus, T_Int 3, T_RPar, T_Star, T_Int 4] =
        Return (BinOp (BinOp (Constant (VInt 2)) Add (Constant (VInt 3))) Mult (Constant (VInt 4)))"
      by (simp add: parse_tokens_def)
  qed
  then show ?thesis by (simp add: call_defs)
qed

lemma evaluate_10_minus_4_minus_3: "evaluate h m (u ''10-4-3'') = Return (VInt 3)"
proof -
  have "evaluate h m (u ''10-4-3'') =
      (case eval_node h (BinOp (BinOp (Constant (VInt 10)) Sub (Constant (VInt 4))) Sub (Constant (VInt 3))) of
         Inl x \<Rightarrow> Raises x | Inr v \<Rightarrow> Return v)"
  proof (rule evaluate_stages)
    show "strip h (u ''10-4-3'') = u ''10-4-3''" by (simp add: rewrite_defs)
    show "u ''10-4-3'' \<noteq> []" by (simp add: u_def)
    show "preprocess h m (u ''10-4-3'') = u ''10-4-3''" by (cases m) (simp_all add: rewrite_defs)
    show "take 1 (u ''10-4-3'') \<noteq> [32]" "take 1 (u ''10-4-3'') \<noteq> [9]" by (simp_all add: u_def)
    show "tokenize (u ''10-4-3'') = Return [T_Int 10, T_Minus, T_Int 4, T_Minus, T_Int 3]"
      by (simp add: lex_defs)
    show "parse_tokens h [T_Int 10, T_Minus, T_Int 4, T_Minus, T_Int 3] =
        Return (BinOp (BinOp (Constant (VInt 10)) Sub (Constant (VInt 4))) Sub (Constant (VInt 3)))"
      by (simp add: parse_tokens_def)
  qed
  then show ?thesis by (simp add: call_defs)
qed

lemma evaluate_7_mod_4_times_2: "evaluate h m (u ''7%4*2'') = Return (VInt 6)"
proof -
  have "evaluate h m (u ''7%4*2'') =
      (case eval_node h (BinOp (BinOp (Constant (VInt 7)) Mod (Constant (VInt 4))) Mult (Constant (VInt 2))) of
         Inl x \<Rightarrow> Raises x | Inr v \<Rightarrow> Return v)"
  proof (rule evaluate_stages)
    show "strip h (u ''7%4*2'') = u ''7%4*2''" by (simp add: rewrite_defs)
    show "u ''7%4*2'' \<noteq> []" by (simp add: u_def)
    show "preprocess h m (u ''7%4*2'') = u ''7%4*2''" by (cases m) (simp_all add: rewrite_defs)
    show "take 1 (u ''7%4*2'') \<noteq> [32]" "take 1 (u ''7%4*2'') \<noteq> [9]" by (simp_all add: u_def)
    show "tokenize (u ''7%4*2'') = Return [T_Int 7, T_Percent, T_Int 4, T_Star, T_Int 2]"
      by (simp add: lex_defs)
    show "parse_tokens h [T_Int 7, T_Percent, T_Int 4, T_Star, T_Int 2] =
        Return (BinOp (BinOp (Constant (VInt 7)) Mod (Constant (VInt 4))) Mult (Constant (VInt 2)))"
      by (simp add: parse_tokens_def)
  qed
  then show ?thesis by (simp add: call_defs)
qed

lemma evaluate_2_times_3_pow_2: "evaluate h m (u ''2*3^2'') = Return (VInt 18)"
proof -
  have "evaluate h m (u ''2*3^2'') =
      (case eval_node h (BinOp (Constant (VInt 2)) Mult (BinOp (Constant (VInt 3)) Pow_op (Constant (VInt 2)))) of
         Inl x \<Rightarrow> Raises x | Inr v \<Rightarrow> Return v)"
  proof (rule evaluate_stages)
    show "strip h (u ''2*3^2'') = u ''2*3^2''" by (simp add: rewrite_defs)
    show "u ''2*3^2'' \<noteq> []" by (simp add: u_def)
    show "preprocess h m (u ''2*3^2'') = u ''2*3**2''" by (cases m) (simp_all add: rewrite_defs)
    show "take 1 (u ''2*3**2'') \<noteq> [32]" "take 1 (u ''2*3**2'') \<noteq> [9]" by (simp_all add: u_def)
    show "tokenize (u ''2*3**2'') = Return [T_Int 2, T_Star, T_Int 3, T_DoubleStar, T_Int 2]"
      by (simp add: lex_defs)
    show "parse_tokens h [T_Int 2, T_Star, T_Int 3, T_DoubleStar, T_Int 2] =
        Return (BinOp (Constant (VInt 2)) Mult (BinOp (Constant (VInt 3)) Pow_op (Constant (VInt 2))))"
      by (simp add: parse_tokens_def)
  qed
  then show ?thesis by (simp add: call_defs)
qed


text \<open>What the tokens of the fragment are to the parser.\<close>

lemma literal_atom_is_operand:
  assumes "literal_atom h t = Some e"
  shows "add_op t = None" "mul_op t = None" "prefix_op t = None"
    "t \<noteq> T_LPar" "t \<noteq> T_DoubleStar" "t \<noteq> T_RPar" "t \<noteq> T_Comma"
  using assms by (cases t; simp)+

lemma add_op_token:
  assumes "add_op t = Some opr"
  shows "mul_op t = None" "t \<noteq> T_LPar" "t \<noteq> T_DoubleStar" "\<not> is_string_token t"
  using assms by (cases t; simp)+

lemma mul_op_token:
  assumes "mul_op t = Some opr"
  shows "add_op t = None" "t \<noteq> T_LPar" "t \<noteq> T_DoubleStar" "\<not> is_string_token t"
  using assms by (cases t; simp)+

lemma parse_operand:
  assumes "literal_atom h t = Some e" and "\<not> list_ex is_string_token (take 1 ts)"
  shows "parse h N_atom (t # ts) = Return (e, ts)"
  using assms by simp

text \<open>
  C3, as amended. The grammar is Python's: a power binds tighter than a unary operator on
  its left and is right-associative, its exponent may carry a unary operator; unary
  operators bind tighter than \<open>*\<close>, \<open>/\<close>, \<open>//\<close>, \<open>%\<close>, which bind tighter than \<open>+\<close>
  and \<open>-\<close>; these two levels are left-associative, and parentheses override. The
  operands are any three atoms (numbers, names, literals), the operators any of a level.
\<close>

theorem C3_precedence:
  "(literal_atom h tx = Some x \<and> literal_atom h ty = Some y \<and> literal_atom h tz = Some z \<and>
    add_op ta = Some oa \<and> add_op ta' = Some oa' \<and> mul_op tm = Some om \<and> mul_op tm' = Some om'
    \<longrightarrow>
      parse_tokens h [T_Minus, tx, T_DoubleStar, ty] = Return (UnaryOp USub (BinOp x Pow_op y)) \<and>
      parse_tokens h [tx, T_DoubleStar, T_Minus, ty] = Return (BinOp x Pow_op (UnaryOp USub y)) \<and>
      parse_tokens h [tx, T_DoubleStar, ty, T_DoubleStar, tz] =
        Return (BinOp x Pow_op (BinOp y Pow_op z)) \<and>
      parse_tokens h [T_Minus, tx, tm, ty] = Return (BinOp (UnaryOp USub x) om y) \<and>
      parse_tokens h [tx, tm, T_Minus, ty] = Return (BinOp x om (UnaryOp USub y)) \<and>
      parse_tokens h [tx, tm, ty, T_DoubleStar, tz] = Return (BinOp x om (BinOp y Pow_op z)) \<and>
      parse_tokens h [tx, T_DoubleStar, ty, tm, tz] = Return (BinOp (BinOp x Pow_op y) om z) \<and>
      parse_tokens h [tx, ta, ty, tm, tz] = Return (BinOp x oa (BinOp y om z)) \<and>
      parse_tokens h [tx, tm, ty, ta, tz] = Return (BinOp (BinOp x om y) oa z) \<and>
      parse_tokens h [tx, ta, ty, ta', tz] = Return (BinOp (BinOp x oa y) oa' z) \<and>
      parse_tokens h [tx, tm, ty, tm', tz] = Return (BinOp (BinOp x om y) om' z) \<and>
      parse_tokens h [tx, ta, T_LPar, ty, ta', tz, T_RPar] = Return (BinOp x oa (BinOp y oa' z)) \<and>
      parse_tokens h [T_LPar, tx, ta, ty, T_RPar, tm, tz] = Return (BinOp (BinOp x oa y) om z) \<and>
      parse_tokens h [T_LPar, T_Minus, tx, T_RPar, T_DoubleStar, ty] =
        Return (BinOp (UnaryOp USub x) Pow_op y)) \<and>
   evaluate h m (u ''-2^2'') = Return (VInt (- 4)) \<and>
   evaluate h m (u ''(-2)^2'') = Return (VInt 4) \<and>
   evaluate h m (u ''2^3^2'') = Return (VInt 512) \<and>
   evaluate h m (u ''2*3^2'') = Return (VInt 18) \<and>
   evaluate h m (u ''2+3*4'') = Return (VInt 14) \<and>
   evaluate h m (u ''(2+3)*4'') = Return (VInt 20) \<and>
   evaluate h m (u ''10-4-3'') = Return (VInt 3) \<and>
   evaluate h m (u ''7%4*2'') = Return (VInt 6)"
  (is "(?atoms \<longrightarrow> ?shapes) \<and> ?examples")
proof -
  have "?shapes" if "?atoms"
    using that
    by (elim conjE) (simp add: parse_tokens_def literal_atom_is_operand add_op_token mul_op_token)
  moreover have "?examples"
    by (simp add: evaluate_minus_2_pow_2 evaluate_paren_minus_2_pow_2 evaluate_2_pow_3_pow_2
        evaluate_2_times_3_pow_2 evaluate_2_plus_3_times_4 evaluate_paren_2_plus_3_times_4
        evaluate_10_minus_4_minus_3 evaluate_7_mod_4_times_2)
  ultimately show ?thesis by blast
qed

theorem C3_precedence_witness:
  "parse_tokens exact_host [T_Minus, T_Int 2, T_DoubleStar, T_Int 3] =
     Return (UnaryOp USub (BinOp (Constant (VInt 2)) Pow_op (Constant (VInt 3)))) \<and>
   parse_tokens exact_host [T_Name (u ''a''), T_Minus, T_Int 3, T_Percent, T_Float 25 1] =
     Return (BinOp (Name (u ''a'')) Sub
       (BinOp (Constant (VInt 3)) Mod (Constant (VFloat (f_literal exact_host 25 1)))))"
  using C3_precedence [where h = exact_host and tx = "T_Int 2" and x = "Constant (VInt 2)"
      and ty = "T_Int 3" and y = "Constant (VInt 3)" and tz = "T_Int 3" and z = "Constant (VInt 3)"
      and ta = T_Minus and oa = Sub and ta' = T_Minus and oa' = Sub
      and tm = T_Percent and om = Mod and tm' = T_Percent and om' = Mod]
    C3_precedence [where h = exact_host and tx = "T_Name (u ''a'')" and x = "Name (u ''a'')"
      and ty = "T_Int 3" and y = "Constant (VInt 3)"
      and tz = "T_Float 25 1" and z = "Constant (VFloat (f_literal exact_host 25 1))"
      and ta = T_Minus and oa = Sub and ta' = T_Minus and oa' = Sub
      and tm = T_Percent and om = Mod and tm' = T_Percent and om' = Mod]
  by simp

text \<open>
  The claim as it stands fails: \<open>-2^2\<close> is \<open>-(2^2)\<close>, which is \<open>-4\<close>, and not
  \<open>(-2)^2\<close>, which is 4.
\<close>

theorem C3_counterexample:
  "evaluate exact_host True (u ''-2^2'') = Return (VInt (- 4)) \<and>
   evaluate exact_host True (u ''(-2)^2'') = Return (VInt 4)"
  by (simp add: evaluate_minus_2_pow_2 evaluate_paren_minus_2_pow_2)

subsection \<open>Texts the rewriting leaves alone\<close>

lemma take_1_mem: "take 1 xs = [a] \<Longrightarrow> a \<in> set xs"
  by (cases xs) auto

lemma take_2_mem: "take 2 xs = [a, b] \<Longrightarrow> a \<in> set xs"
  by (cases xs) auto

lemma strip_id:
  assumes "s \<noteq> []" and "\<not> is_space h (hd s)" and "\<not> is_space h (last s)"
  shows "strip h s = s"
proof -
  from assms(1,2) have a: "dropWhile (is_space h) s = s"
    by (cases s) simp_all
  from assms(1,3) have "dropWhile (is_space h) (rev s) = rev s"
    by (cases "rev s") (simp_all add: last_rev [symmetric] hd_rev)
  with a show ?thesis by (simp add: strip_def)
qed

lemma replace_char_id: "c \<notin> set s \<Longrightarrow> replace_char c r s = s"
  by (induction s) (auto simp: replace_char_def)

lemma normalize_symbols_id:
  assumes "960 \<notin> set s" and "ch CHR ''^'' \<notin> set s" and "8730 \<notin> set s"
  shows "normalize_symbols s = s"
  using assms by (simp add: normalize_symbols_def replace_char_id)

lemma implicit_mult_digit_id:
  assumes "ch CHR ''p'' \<notin> set s" and "ch CHR ''e'' \<notin> set s" and "ch CHR ''('' \<notin> set s"
  shows "implicit_mult_digit h s = s"
  using assms
proof (induction s)
  case Nil
  then show ?case by simp
next
  case (Cons c cs)
  then have "take 2 cs \<noteq> u ''pi''" "take 1 cs \<noteq> u ''e''" "take 1 cs \<noteq> u ''(''"
    using take_2_mem [of cs "ch CHR ''p''" "ch CHR ''i''"] take_1_mem [of cs "ch CHR ''e''"]
      take_1_mem [of cs "ch CHR ''(''"]
    by (auto simp: u_def ch_def)
  with Cons show ?case by simp
qed

lemma implicit_mult_paren_id:
  assumes "ch CHR '')'' \<notin> set s"
  shows "implicit_mult_paren h s = s"
  using assms by (induction h s rule: implicit_mult_paren.induct) auto

lemma trig_sub_id:
  assumes "ch CHR ''('' \<notin> set s"
  shows "trig_sub h lb s = s"
  using assms
proof (induction s arbitrary: lb)
  case Nil
  then show ?case by simp
next
  case (Cons c cs)
  have "set (dropWhile (is_space h) (drop 3 (c # cs))) \<subseteq> set (c # cs)"
    by (meson set_dropWhileD set_drop_subset subsetI subset_trans in_mono)
  with Cons.prems have "ch CHR ''('' \<notin> set (dropWhile (is_space h) (drop 3 (c # cs)))"
    by blast
  then have "take 1 (dropWhile (is_space h) (drop 3 (c # cs))) \<noteq> u ''(''"
    using take_1_mem [of "dropWhile (is_space h) (drop 3 (c # cs))" "ch CHR ''(''"]
    by (auto simp: u_def ch_def)
  with Cons show ?case by simp
qed

lemma auto_balance_id:
  assumes "ch CHR ''('' \<notin> set s"
  shows "auto_balance s = s"
proof -
  from assms have "filter (\<lambda>x. x = ch CHR ''('') s = []"
    by (auto simp: filter_empty_conv)
  then show ?thesis
    by (simp add: auto_balance_def count_char_def)
qed

lemma preprocess_plain:
  assumes "plain_text s"
  shows "preprocess h m s = s"
proof -
  from assms have "960 \<notin> set s" "ch CHR ''^'' \<notin> set s" "8730 \<notin> set s" "ch CHR ''p'' \<notin> set s"
    "ch CHR ''e'' \<notin> set s" "ch CHR ''('' \<notin> set s" "ch CHR '')'' \<notin> set s"
    by (auto simp: plain_text_def list_all_iff)
  then show ?thesis
    by (simp add: preprocess_def rewrite_text_def normalize_symbols_id implicit_mult_digit_id
        implicit_mult_paren_id trig_sub_id auto_balance_id)
qed


subsection \<open>Decimal numerals\<close>

lemma digits_of_small: "n < 10 \<Longrightarrow> digits_of n = [48 + n]"
  by (subst digits_of.simps) simp

lemma digits_of_step: "10 \<le> n \<Longrightarrow> digits_of n = digits_of (n div 10) @ [48 + n mod 10]"
  by (subst digits_of.simps) simp

lemma digits_of_nonempty: "digits_of n \<noteq> []"
  by (subst digits_of.simps) simp

lemma digits_of_digits: "list_all is_ascii_digit (digits_of n)"
proof (induction n rule: digits_of.induct)
  case (1 n)
  show ?case
  proof (cases "n < 10")
    case True
    then show ?thesis
      by (subst digits_of.simps) (simp add: is_ascii_digit_def)
  next
    case False
    with 1 have "list_all is_ascii_digit (digits_of (n div 10))" by simp
    moreover have "is_ascii_digit (48 + n mod 10)"
      by (simp add: is_ascii_digit_def)
    ultimately show ?thesis
      using False by (subst digits_of.simps) simp
  qed
qed

lemma nat_of_digits_snoc: "nat_of_digits (ds @ [c]) = 10 * nat_of_digits ds + (c - 48)"
  by (simp add: nat_of_digits_def)

lemma nat_of_digits_of: "nat_of_digits (digits_of n) = n"
proof (induction n rule: digits_of.induct)
  case (1 n)
  show ?case
  proof (cases "n < 10")
    case True
    then show ?thesis
      by (subst digits_of.simps) (simp add: nat_of_digits_def)
  next
    case False
    with 1 have "nat_of_digits (digits_of (n div 10)) = n div 10" by simp
    with False show ?thesis
      by (subst digits_of.simps) (simp add: nat_of_digits_snoc)
  qed
qed

lemma length_digits_of: "n < 10 ^ k \<Longrightarrow> 0 < k \<Longrightarrow> length (digits_of n) \<le> k"
proof (induction n arbitrary: k rule: digits_of.induct)
  case (1 n)
  show ?case
  proof (cases "n < 10")
    case True
    with 1(3) show ?thesis
      by (subst digits_of.simps) simp
  next
    case False
    with 1(2) have "1 < k"
      by (cases k; cases "k - 1"; simp)
    then obtain j where k: "k = Suc j" "0 < j"
      by (cases k) auto
    with 1(2) have "n div 10 < 10 ^ j"
      by (simp add: less_mult_imp_div_less mult.commute)
    with 1(1) False k(2) have "length (digits_of (n div 10)) \<le> j" by simp
    with False k(1) show ?thesis
      by (subst digits_of.simps) simp
  qed
qed

lemma hd_digits_of: "0 < n \<Longrightarrow> hd (digits_of n) \<noteq> 48"
proof (induction n rule: digits_of.induct)
  case (1 n)
  show ?case
  proof (cases "n < 10")
    case True
    with 1(2) show ?thesis
      by (subst digits_of.simps) simp
  next
    case False
    with 1 have "hd (digits_of (n div 10)) \<noteq> 48" by simp
    with False show ?thesis
      by (subst digits_of.simps) (simp add: digits_of_nonempty)
  qed
qed

lemma lex_number_int:
  assumes "list_all is_ascii_digit ds" and "ds \<noteq> []" and "ends_number r"
    and "\<not> (1 < length ds \<and> hd ds = 48 \<and> nat_of_digits ds \<noteq> 0)" and "length ds \<le> 4300"
  shows "lex_number (ds @ r) = Return (Some (T_Int (nat_of_digits ds)), r)"
proof -
  from assms(3) have stop: "takeWhile is_ascii_digit r = []" "dropWhile is_ascii_digit r = r"
    by (cases r; simp add: ends_number_def)+
  from assms(1) have "takeWhile is_ascii_digit (ds @ r) = ds @ takeWhile is_ascii_digit r"
    "dropWhile is_ascii_digit (ds @ r) = dropWhile is_ascii_digit r"
    by (simp_all add: list_all_iff takeWhile_append2 dropWhile_append2)
  with stop have run: "takeWhile is_ascii_digit (ds @ r) = ds" "dropWhile is_ascii_digit (ds @ r) = r"
    by simp_all
  from assms(3) have r: "take 1 r \<noteq> u ''.''" "\<not> continues_word r"
    by (cases r; simp add: ends_number_def continues_word_def u_def ch_def)+
  from assms(2,4) have "\<not> (1 < length ds \<and> take 1 ds = u ''0'' \<and> nat_of_digits ds \<noteq> 0)"
    by (cases ds) (auto simp: u_def)
  with run r assms(5) show ?thesis
    by (simp add: lex_number_def Let_def)
qed

lemma tokenize_int:
  assumes "list_all is_ascii_digit ds" and "ds \<noteq> []" and "ends_number r"
    and "\<not> (1 < length ds \<and> hd ds = 48 \<and> nat_of_digits ds \<noteq> 0)" and "length ds \<le> 4300"
  shows "tokenize (ds @ r) = push_token (Some (T_Int (nat_of_digits ds))) (tokenize r)"
proof -
  from assms(2) obtain c cs where ds: "ds = c # cs" by (cases ds) auto
  with assms(1) have c: "is_ascii_digit c" by simp
  then have "lex_one c (cs @ r) = lex_number (c # cs @ r)"
    by (auto simp: lex_one_def is_ascii_digit_def ch_def)
  also have "\<dots> = Return (Some (T_Int (nat_of_digits ds)), r)"
    using lex_number_int [OF assms] ds by simp
  finally show ?thesis
    using ds by simp
qed

lemma tokenize_digits_of:
  assumes "n < 10 ^ 4300"
  shows "tokenize (digits_of n) = Return [T_Int n]"
proof -
  have "\<not> (1 < length (digits_of n) \<and> hd (digits_of n) = 48 \<and> nat_of_digits (digits_of n) \<noteq> 0)"
    using hd_digits_of [of n] by (cases "n = 0") (simp_all add: nat_of_digits_of)
  moreover from assms have "length (digits_of n) \<le> 4300"
    by (rule length_digits_of) simp
  ultimately have "tokenize (digits_of n @ []) =
      push_token (Some (T_Int (nat_of_digits (digits_of n)))) (tokenize [])"
    by (intro tokenize_int) (simp_all add: digits_of_digits digits_of_nonempty ends_number_def)
  then show ?thesis
    by (simp add: nat_of_digits_of)
qed

lemma digit_is_plain:
  assumes "is_ascii_digit c"
  shows "c \<noteq> 960 \<and> c \<noteq> 8730 \<and> c \<noteq> ch CHR ''^'' \<and> c \<noteq> ch CHR ''p'' \<and>
      c \<noteq> ch CHR ''e'' \<and> c \<noteq> ch CHR ''('' \<and> c \<noteq> ch CHR '')''" "\<not> is_space h c" "c \<noteq> 32" "c \<noteq> 9"
  using assms by (auto simp: is_ascii_digit_def ch_def is_space_def)

lemma digits_plain_text: "list_all is_ascii_digit ds \<Longrightarrow> plain_text ds"
  using digit_is_plain(1) by (auto simp: plain_text_def list_all_iff)

text \<open>The numeral of a natural number evaluates to the number.\<close>

lemma evaluate_digits_of:
  assumes "n < 10 ^ 4300"
  shows "evaluate h m (digits_of n) = Return (VInt (int n))"
proof -
  let ?t = "digits_of n"
  have digits: "list_all is_ascii_digit ?t" and ne: "?t \<noteq> []"
    by (simp_all add: digits_of_digits digits_of_nonempty)
  then have ends: "is_ascii_digit (hd ?t)" "is_ascii_digit (last ?t)"
    by (auto simp: list_all_iff)
  have "evaluate h m ?t =
      (case eval_node h (Constant (VInt (int n))) of Inl x \<Rightarrow> Raises x | Inr v \<Rightarrow> Return v)"
  proof (rule evaluate_stages)
    show "strip h ?t = ?t"
      using ne ends [THEN digit_is_plain(2)] by (intro strip_id) simp_all
    show "?t \<noteq> []" by (rule ne)
    show "preprocess h m ?t = ?t"
      using digits by (intro preprocess_plain digits_plain_text)
    show "take 1 ?t \<noteq> [32]" "take 1 ?t \<noteq> [9]"
      using ne ends(1) digit_is_plain(3,4) [of "hd ?t"] by (cases ?t; auto)+
    show "tokenize ?t = Return [T_Int n]"
      using assms by (rule tokenize_digits_of)
    show "parse_tokens h [T_Int n] = Return (Constant (VInt (int n)))"
      by (simp add: parse_tokens_def)
  qed
  then show ?thesis by simp
qed

text \<open>And so does the numeral after a minus sign, to the negated number.\<close>

lemma evaluate_minus_digits_of:
  assumes "n < 10 ^ 4300"
  shows "evaluate h m (ch CHR ''-'' # digits_of n) = Return (VInt (- int n))"
proof -
  let ?t = "digits_of n"
  have digits: "list_all is_ascii_digit ?t" and ne: "?t \<noteq> []"
    by (simp_all add: digits_of_digits digits_of_nonempty)
  then have last: "is_ascii_digit (last ?t)"
    by (auto simp: list_all_iff)
  have plain: "plain_text (ch CHR ''-'' # ?t)"
    using digits_plain_text [OF digits] by (simp add: plain_text_def ch_def)
  have "evaluate h m (ch CHR ''-'' # ?t) =
      (case eval_node h (UnaryOp USub (Constant (VInt (int n)))) of
         Inl x \<Rightarrow> Raises x | Inr v \<Rightarrow> Return v)"
  proof (rule evaluate_stages)
    have "\<not> is_space h (last ?t)"
      using last by (rule digit_is_plain(2))
    moreover have "\<not> is_space h (ch CHR ''-'')"
      by (simp add: is_space_def ch_def)
    ultimately show "strip h (ch CHR ''-'' # ?t) = ch CHR ''-'' # ?t"
      using ne by (intro strip_id) simp_all
    show "ch CHR ''-'' # ?t \<noteq> []" by simp
    show "preprocess h m (ch CHR ''-'' # ?t) = ch CHR ''-'' # ?t"
      using plain by (rule preprocess_plain)
    show "take 1 (ch CHR ''-'' # ?t) \<noteq> [32]" "take 1 (ch CHR ''-'' # ?t) \<noteq> [9]"
      by (simp_all add: ch_def)
    have "lex_one (ch CHR ''-'') ?t = Return (Some T_Minus, ?t)"
      by (simp add: lex_one_def ch_def is_ascii_digit_def is_letter_or_underscore_def
          is_ascii_letter_def)
    then show "tokenize (ch CHR ''-'' # ?t) = Return [T_Minus, T_Int n]"
      using tokenize_digits_of [OF assms] by simp
    show "parse_tokens h [T_Minus, T_Int n] = Return (UnaryOp USub (Constant (VInt (int n))))"
      by (simp add: parse_tokens_def)
  qed
  then show ?thesis by simp
qed

lemma evaluate_100000000: "evaluate h m (u ''100000000'') = Return (VInt 100000000)"
proof -
  have "evaluate h m (u ''100000000'') =
      (case eval_node h (Constant (VInt 100000000)) of
         Inl x \<Rightarrow> Raises x | Inr v \<Rightarrow> Return v)"
  proof (rule evaluate_stages)
    show "strip h (u ''100000000'') = u ''100000000''" by (simp add: rewrite_defs)
    show "u ''100000000'' \<noteq> []" by (simp add: u_def)
    show "preprocess h m (u ''100000000'') = u ''100000000''" by (cases m) (simp_all add: rewrite_defs)
    show "take 1 (u ''100000000'') \<noteq> [32]" "take 1 (u ''100000000'') \<noteq> [9]" by (simp_all add: u_def)
    show "tokenize (u ''100000000'') = Return [T_Int 100000000]"
      by (simp add: lex_defs)
    show "parse_tokens h [T_Int 100000000] =
        Return (Constant (VInt 100000000))"
      by (simp add: parse_tokens_def)
  qed
  then show ?thesis by (simp add: call_defs)
qed

lemma evaluate_1e08: "evaluate h m (u ''1e+08'') = Raises SyntaxError"
proof -
  have "strip h (u ''1e+08'') = u ''1e+08''" by (simp add: rewrite_defs)
  moreover have "preprocess h m (u ''1e+08'') = u ''1*e+08''"
    by (cases m) (simp_all add: rewrite_defs)
  moreover have "tokenize (u ''1*e+08'') = Raises SyntaxError"
    by (simp add: lex_defs)
  ultimately show ?thesis
    by (simp add: evaluate_def py_parse_def u_def)
qed

subsection \<open>Decimal fractions\<close>

lemma lex_number_float:
  assumes "digit_string ds" and "list_all is_ascii_digit fs"
  shows "lex_number (ds @ ch CHR ''.'' # fs) =
      Return (Some (T_Float (nat_of_digits (ds @ fs)) (length fs)), [])"
proof -
  have c: "ch CHR ''.'' = 46"
    by (simp add: ch_def)
  have point: "\<not> is_ascii_digit 46"
    by (simp add: is_ascii_digit_def)
  from assms(1) have ds: "list_all is_ascii_digit ds"
    by (simp add: digit_string_def)
  with point have run: "takeWhile is_ascii_digit (ds @ 46 # fs) = ds"
    "dropWhile is_ascii_digit (ds @ 46 # fs) = 46 # fs"
    by (simp_all add: list_all_iff takeWhile_append2 dropWhile_append2)
  from assms(2) have frac: "takeWhile is_ascii_digit fs = fs" "dropWhile is_ascii_digit fs = []"
    by (simp_all add: list_all_iff)
  show ?thesis
    unfolding c by (simp add: lex_number_def Let_def run frac u_def continues_word_def)
qed

lemma tokenize_float:
  assumes "digit_string ds" and "list_all is_ascii_digit fs"
  shows "tokenize (ds @ ch CHR ''.'' # fs) = Return [T_Float (nat_of_digits (ds @ fs)) (length fs)]"
proof -
  from assms(1) obtain c cs where ds: "ds = c # cs" and c: "is_ascii_digit c"
    by (cases ds) (auto simp: digit_string_def)
  from c have "lex_one c (cs @ ch CHR ''.'' # fs) = lex_number (c # cs @ ch CHR ''.'' # fs)"
    by (auto simp: lex_one_def is_ascii_digit_def ch_def)
  also have "\<dots> = Return (Some (T_Float (nat_of_digits (ds @ fs)) (length fs)), [])"
    using lex_number_float [OF assms] ds by simp
  finally show ?thesis
    using ds by simp
qed

lemma point_is_plain:
  "plain_text [ch CHR ''.'']" "\<not> is_space h (ch CHR ''.'')"
  "plain_text [ch CHR ''-'']" "\<not> is_space h (ch CHR ''-'')"
  by (simp_all add: plain_text_def is_space_def ch_def)

lemma decimal_plain_text:
  assumes "digit_string ds" and "list_all is_ascii_digit fs"
  shows "plain_text (ds @ ch CHR ''.'' # fs)"
proof -
  from assms have "plain_text ds" "plain_text fs"
    by (simp_all add: digit_string_def digits_plain_text)
  with point_is_plain(1) show ?thesis
    by (simp add: plain_text_def)
qed

text \<open>Digits, a point and digits evaluate to the float literal the host reads in them.\<close>

lemma evaluate_decimal:
  assumes "digit_string ds" and "digit_string fs"
  shows "evaluate h m (ds @ ch CHR ''.'' # fs) =
      Return (VFloat (f_literal h (nat_of_digits (ds @ fs)) (length fs)))"
proof -
  let ?t = "ds @ ch CHR ''.'' # fs"
  let ?k = "nat_of_digits (ds @ fs)"
  from assms have ds: "ds \<noteq> []" "list_all is_ascii_digit ds"
    and fs: "fs \<noteq> []" "list_all is_ascii_digit fs"
    by (simp_all add: digit_string_def)
  then have ends: "is_ascii_digit (hd ds)" "is_ascii_digit (last fs)"
    by (auto simp: list_all_iff)
  have "evaluate h m ?t =
      (case eval_node h (Constant (VFloat (f_literal h ?k (length fs)))) of
         Inl x \<Rightarrow> Raises x | Inr v \<Rightarrow> Return v)"
  proof (rule evaluate_stages)
    have "\<not> is_space h (hd ?t)" "\<not> is_space h (last ?t)"
      using ds(1) fs(1) ends [THEN digit_is_plain(2)] by simp_all
    then show "strip h ?t = ?t"
      by (intro strip_id) simp_all
    show "?t \<noteq> []" by simp
    show "preprocess h m ?t = ?t"
      using assms(1) fs(2) by (intro preprocess_plain decimal_plain_text)
    show "take 1 ?t \<noteq> [32]" "take 1 ?t \<noteq> [9]"
      using ds(1) ends(1) digit_is_plain(3,4) [of "hd ds"] by (cases ds; auto)+
    show "tokenize ?t = Return [T_Float ?k (length fs)]"
      using assms(1) fs(2) by (rule tokenize_float)
    show "parse_tokens h [T_Float ?k (length fs)] = Return (Constant (VFloat (f_literal h ?k (length fs))))"
      by (simp add: parse_tokens_def)
  qed
  then show ?thesis by simp
qed

text \<open>After a minus sign they evaluate to the negated literal.\<close>

lemma evaluate_minus_decimal:
  assumes "digit_string ds" and "digit_string fs"
  shows "evaluate h m (ch CHR ''-'' # ds @ ch CHR ''.'' # fs) =
      Return (VFloat (f_neg h (f_literal h (nat_of_digits (ds @ fs)) (length fs))))"
proof -
  let ?t = "ds @ ch CHR ''.'' # fs"
  let ?k = "nat_of_digits (ds @ fs)"
  from assms have ds: "ds \<noteq> []" "list_all is_ascii_digit ds"
    and fs: "fs \<noteq> []" "list_all is_ascii_digit fs"
    by (simp_all add: digit_string_def)
  then have last: "is_ascii_digit (last fs)"
    by (auto simp: list_all_iff)
  have "evaluate h m (ch CHR ''-'' # ?t) =
      (case eval_node h (UnaryOp USub (Constant (VFloat (f_literal h ?k (length fs))))) of
         Inl x \<Rightarrow> Raises x | Inr v \<Rightarrow> Return v)"
  proof (rule evaluate_stages)
    have "\<not> is_space h (last (ch CHR ''-'' # ?t))"
      using fs(1) last [THEN digit_is_plain(2)] by simp
    with point_is_plain(4) show "strip h (ch CHR ''-'' # ?t) = ch CHR ''-'' # ?t"
      by (intro strip_id) simp_all
    show "ch CHR ''-'' # ?t \<noteq> []" by simp
    have "plain_text (ch CHR ''-'' # ?t)"
      using decimal_plain_text [OF assms(1) fs(2)] point_is_plain(3)
      by (simp add: plain_text_def)
    then show "preprocess h m (ch CHR ''-'' # ?t) = ch CHR ''-'' # ?t"
      by (rule preprocess_plain)
    show "take 1 (ch CHR ''-'' # ?t) \<noteq> [32]" "take 1 (ch CHR ''-'' # ?t) \<noteq> [9]"
      by (simp_all add: ch_def)
    have "lex_one (ch CHR ''-'') ?t = Return (Some T_Minus, ?t)"
      by (simp add: lex_one_def ch_def is_ascii_digit_def is_letter_or_underscore_def
          is_ascii_letter_def)
    then show "tokenize (ch CHR ''-'' # ?t) = Return [T_Minus, T_Float ?k (length fs)]"
      using tokenize_float [OF assms(1) fs(2)] by simp
    show "parse_tokens h [T_Minus, T_Float ?k (length fs)] =
        Return (UnaryOp USub (Constant (VFloat (f_literal h ?k (length fs)))))"
      by (simp add: parse_tokens_def)
  qed
  then show ?thesis by simp
qed

subsection \<open>The format of the example host on given numbers\<close>

lemma floor_log10:
  assumes "0 < x" and "10 powr real_of_int k \<le> x" and "x < 10 powr real_of_int (k + 1)"
  shows "\<lfloor>log 10 x\<rfloor> = k"
  using assms floor_log_eq_powr_iff [of x 10 k] by simp

lemma round_half_even_int: "round_half_even (real_of_int k) = k"
  by (simp add: round_half_even_def)

lemma digits_of_25000000: "digits_of 25000000 = u ''25000000''"
  by (simp add: digits_of_small digits_of_step u_def)

lemma digits_of_50000000: "digits_of 50000000 = u ''50000000''"
  by (simp add: digits_of_small digits_of_step u_def)

lemma digits_of_33333333: "digits_of 33333333 = u ''33333333''"
  by (simp add: digits_of_small digits_of_step u_def)

lemma exact_format_5_2: "exact_format (5 / 2) = u ''2.5''"
proof -
  have "\<lfloor>log 10 (5 / 2 :: real)\<rfloor> = 0"
    by (rule floor_log10) simp_all
  moreover have "round_half_even 25000000 = 25000000"
    using round_half_even_int [of 25000000] by simp
  ultimately show ?thesis
    by (simp add: exact_format_def digits_of_25000000 strip_trailing_zeros_def u_def ch_def)
qed

lemma exact_format_minus_5_2: "exact_format (- (5 / 2)) = u ''-2.5''"
proof -
  have "\<lfloor>log 10 (5 / 2 :: real)\<rfloor> = 0"
    by (rule floor_log10) simp_all
  moreover have "round_half_even 25000000 = 25000000"
    using round_half_even_int [of 25000000] by simp
  ultimately show ?thesis
    by (simp add: exact_format_def digits_of_25000000 strip_trailing_zeros_def u_def ch_def)
qed

lemma exact_format_5: "exact_format 5 = u ''5''"
proof -
  have "\<lfloor>log 10 (5 :: real)\<rfloor> = 0"
    by (rule floor_log10) simp_all
  moreover have "round_half_even 50000000 = 50000000"
    using round_half_even_int [of 50000000] by simp
  ultimately show ?thesis
    by (simp add: exact_format_def digits_of_50000000 strip_trailing_zeros_def u_def ch_def)
qed

lemma exact_format_minus_5: "exact_format (- 5) = u ''-5''"
proof -
  have "\<lfloor>log 10 (5 :: real)\<rfloor> = 0"
    by (rule floor_log10) simp_all
  moreover have "round_half_even 50000000 = 50000000"
    using round_half_even_int [of 50000000] by simp
  ultimately show ?thesis
    by (simp add: exact_format_def digits_of_50000000 strip_trailing_zeros_def u_def ch_def)
qed

lemma exact_format_third: "exact_format (1 / 3) = u ''0.33333333''"
proof -
  have "\<lfloor>log 10 (1 / 3 :: real)\<rfloor> = - 1"
    by (rule floor_log10) (simp_all add: powr_minus)
  moreover have "round_half_even (100000000 / 3) = 33333333"
    by (simp add: round_half_even_def)
  ultimately show ?thesis
    by (simp add: exact_format_def digits_of_33333333 strip_trailing_zeros_def u_def ch_def)
qed

lemma evaluate_1_div_3: "evaluate exact_host True (u ''1/3'') = Return (VFloat (1 / 3))"
proof -
  have "evaluate exact_host True (u ''1/3'') =
      (case eval_node exact_host (BinOp (Constant (VInt 1)) Div (Constant (VInt 3))) of
         Inl x \<Rightarrow> Raises x | Inr v \<Rightarrow> Return v)"
  proof (rule evaluate_stages)
    show "strip exact_host (u ''1/3'') = u ''1/3''" by (simp add: rewrite_defs exact_host_def unicode_space_def unicode_digit_def)
    show "u ''1/3'' \<noteq> []" by (simp add: u_def)
    show "preprocess exact_host True (u ''1/3'') = u ''1/3''" by (simp add: rewrite_defs)
    show "take 1 (u ''1/3'') \<noteq> [32]" "take 1 (u ''1/3'') \<noteq> [9]" by (simp_all add: u_def)
    show "tokenize (u ''1/3'') = Return [T_Int 1, T_Slash, T_Int 3]"
      by (simp add: lex_defs)
    show "parse_tokens exact_host [T_Int 1, T_Slash, T_Int 3] =
        Return (BinOp (Constant (VInt 1)) Div (Constant (VInt 3)))"
      by (simp add: parse_tokens_def)
  qed
  then show ?thesis by (simp add: call_defs exact_host_def unicode_space_def unicode_digit_def)
qed

lemma format_100000000: "format_8g h (VInt 100000000) = Some (u ''1e+08'')"
proof -
  have "scientific8 100000000 = u ''1e+08''"
    by (simp add: scientific8_def Let_def digits_of_small digits_of_step u_def ch_def
        strip_trailing_zeros_def)
  then show ?thesis
    by (simp add: format_nat_def)
qed

lemma evaluate_033333333:
  "evaluate exact_host True (u ''0.33333333'') = Return (VFloat (33333333 / 100000000))"
proof -
  have "digit_string (u ''0'')" "digit_string (u ''33333333'')"
    by (simp_all add: digit_string_def is_ascii_digit_def u_def)
  then have "evaluate exact_host True (u ''0'' @ ch CHR ''.'' # u ''33333333'') =
      Return (VFloat (f_literal exact_host (nat_of_digits (u ''0'' @ u ''33333333''))
        (length (u ''33333333''))))"
    by (rule evaluate_decimal)
  moreover have "nat_of_digits (u ''0'' @ u ''33333333'') = 33333333"
    by (simp add: nat_of_digits_def u_def)
  ultimately show ?thesis
    by (simp add: u_def ch_def exact_host_def)
qed

text \<open>
  C5, as amended. The formatted result evaluates to the result again when the format
  prints a decimal numeral that reads as the result: an int of magnitude below
  \<open>10 ^ 8\<close> is printed as its numeral and comes back as itself, a bool as the int it is;
  a float printed as digits, a point and digits, with or without a minus sign, comes
  back as itself when the host reads the printed literal as that float; a float
  printed as an integer numeral below \<open>10 ^ 8\<close> in magnitude comes back as that int,
  whose float it is. This holds in both angle modes.
\<close>

theorem C5_round_trip:
  "(\<bar>i\<bar> < 10 ^ 8 \<longrightarrow>
      (\<exists>t. format_8g h (VInt i) = Some t \<and>
           t = (if i < 0 then ch CHR ''-'' # digits_of (nat (- i)) else digits_of (nat i)) \<and>
           evaluate h m t = Return (VInt i))) \<and>
   (\<exists>t. format_8g h (VBool b) = Some t \<and>
        evaluate h m t = Return (VInt (if b then 1 else 0))) \<and>
   (digit_string ds \<and> digit_string fs \<and>
    f_format h x = ds @ ch CHR ''.'' # fs \<and>
    f_literal h (nat_of_digits (ds @ fs)) (length fs) = x \<longrightarrow>
      (\<exists>t. format_8g h (VFloat x) = Some t \<and> evaluate h m t = Return (VFloat x))) \<and>
   (digit_string ds' \<and> digit_string fs' \<and>
    f_format h x' = ch CHR ''-'' # ds' @ ch CHR ''.'' # fs' \<and>
    f_neg h (f_literal h (nat_of_digits (ds' @ fs')) (length fs')) = x' \<longrightarrow>
      (\<exists>t. format_8g h (VFloat x') = Some t \<and> evaluate h m t = Return (VFloat x'))) \<and>
   (n < 10 ^ 8 \<and> f_format h z = digits_of n \<and> f_of_int h (int n) = z \<longrightarrow>
      (\<exists>t. format_8g h (VFloat z) = Some t \<and> evaluate h m t = Return (VInt (int n)))) \<and>
   (n' < 10 ^ 8 \<and> f_format h z' = ch CHR ''-'' # digits_of n' \<and> f_of_int h (- int n') = z' \<longrightarrow>
      (\<exists>t. format_8g h (VFloat z') = Some t \<and> evaluate h m t = Return (VInt (- int n'))))"
  (is "(?small \<longrightarrow> ?int) \<and> ?bool \<and> (?pos \<longrightarrow> ?float) \<and> (?neg \<longrightarrow> ?minus_float) \<and>
       (?whole \<longrightarrow> ?float_int) \<and> (?minus_whole \<longrightarrow> ?float_minus_int)")
proof -
  have big: "(10::nat) ^ 8 < 10 ^ 4300"
    by (rule power_strict_increasing) simp_all
  have numeral: "evaluate h m (digits_of k) = Return (VInt (int k))"
    and minus_numeral: "evaluate h m (ch CHR ''-'' # digits_of k) = Return (VInt (- int k))"
    if "k < 10 ^ 8" for k
  proof -
    from that big have "k < 10 ^ 4300" by (rule less_trans)
    then show "evaluate h m (digits_of k) = Return (VInt (int k))"
      and "evaluate h m (ch CHR ''-'' # digits_of k) = Return (VInt (- int k))"
      by (rule evaluate_digits_of, rule evaluate_minus_digits_of)
  qed
  have "?int" if small: "?small"
  proof (cases "i < 0")
    case True
    define k where "k = nat (- i)"
    with True small have i: "i = - int k" and k8: "k < 10 ^ 8" and pos: "0 < k"
      by simp_all
    from k8 have "int k < 2 ^ 53" by simp
    with k8 pos have "format_8g h (VInt (- int k)) = Some (ch CHR ''-'' # digits_of k)"
      by (simp add: format_nat_def)
    with minus_numeral [OF k8] pos show ?thesis
      unfolding i by simp
  next
    case False
    define k where "k = nat i"
    with False small have i: "i = int k" and k8: "k < 10 ^ 8"
      by simp_all
    from k8 have "int k < 2 ^ 53" by simp
    with k8 have "format_8g h (VInt (int k)) = Some (digits_of k)"
      by (simp add: format_nat_def)
    with numeral [OF k8] show ?thesis
      unfolding i by simp
  qed
  moreover have "?bool"
  proof -
    have "digits_of 1 = u ''1''" "digits_of 0 = u ''0''"
      by (simp_all add: digits_of_small u_def)
    with numeral [of 1] numeral [of 0] show ?thesis
      by (cases b) simp_all
  qed
  moreover have "?float" if "?pos"
    using that evaluate_decimal [of ds fs h m] by auto
  moreover have "?minus_float" if "?neg"
    using that evaluate_minus_decimal [of ds' fs' h m] by auto
  moreover have "?float_int" if "?whole"
    using that numeral [of n] by auto
  moreover have "?float_minus_int" if "?minus_whole"
    using that minus_numeral [of n'] by auto
  ultimately show ?thesis by blast
qed

theorem C5_round_trip_witness:
  "format_8g exact_host (VInt (- 42)) = Some (u ''-42'') \<and>
   evaluate exact_host True (u ''-42'') = Return (VInt (- 42)) \<and>
   format_8g exact_host (VFloat (5 / 2)) = Some (u ''2.5'') \<and>
   evaluate exact_host True (u ''2.5'') = Return (VFloat (5 / 2)) \<and>
   format_8g exact_host (VFloat (- (5 / 2))) = Some (u ''-2.5'') \<and>
   evaluate exact_host True (u ''-2.5'') = Return (VFloat (- (5 / 2))) \<and>
   format_8g exact_host (VFloat 5) = Some (u ''5'') \<and>
   evaluate exact_host True (u ''5'') = Return (VInt 5) \<and>
   format_8g exact_host (VFloat (- 5)) = Some (u ''-5'') \<and>
   evaluate exact_host True (u ''-5'') = Return (VInt (- 5))"
proof -
  have numerals: "digits_of 42 = u ''42''" "digits_of 5 = u ''5''"
    by (simp_all add: digits_of_small digits_of_step u_def)
  have strings: "digit_string (u ''2'')" "digit_string (u ''5'')"
    by (simp_all add: digit_string_def is_ascii_digit_def u_def)
  have literal: "nat_of_digits (u ''2'' @ u ''5'') = 25" "length (u ''5'') = 1"
    by (simp_all add: nat_of_digits_def u_def)
  have formats: "f_format exact_host (5 / 2) = u ''2'' @ ch CHR ''.'' # u ''5''"
    "f_format exact_host (- (5 / 2)) = ch CHR ''-'' # u ''2'' @ ch CHR ''.'' # u ''5''"
    "f_format exact_host 5 = digits_of 5"
    "f_format exact_host (- 5) = ch CHR ''-'' # digits_of 5"
    by (simp_all add: exact_host_def exact_format_5_2 exact_format_minus_5_2 exact_format_5
        exact_format_minus_5 numerals u_def ch_def)
  have reads: "f_literal exact_host (nat_of_digits (u ''2'' @ u ''5'')) (length (u ''5'')) = 5 / 2"
    "f_neg exact_host (f_literal exact_host (nat_of_digits (u ''2'' @ u ''5'')) (length (u ''5'')))
       = - (5 / 2)"
    "f_of_int exact_host (int 5) = 5" "f_of_int exact_host (- int 5) = - 5"
    unfolding literal by (simp_all add: exact_host_def)
  have small: "\<bar>- 42 :: int\<bar> < 10 ^ 8" "(5 :: nat) < 10 ^ 8"
    by simp_all
  from C5_round_trip [where h = exact_host and m = True and i = "- 42" and b = True
      and ds = "u ''2''" and fs = "u ''5''" and x = "5 / 2"
      and ds' = "u ''2''" and fs' = "u ''5''" and x' = "- (5 / 2)"
      and n = 5 and z = 5 and n' = 5 and z' = "- 5"]
    strings formats reads small
  have "(\<exists>t. format_8g exact_host (VInt (- 42)) = Some t \<and>
           t = (if (- 42 :: int) < 0 then ch CHR ''-'' # digits_of (nat (- (- 42))) else digits_of (nat (- 42))) \<and>
           evaluate exact_host True t = Return (VInt (- 42))) \<and>
      (\<exists>t. format_8g exact_host (VFloat (5 / 2)) = Some t \<and>
           evaluate exact_host True t = Return (VFloat (5 / 2))) \<and>
      (\<exists>t. format_8g exact_host (VFloat (- (5 / 2))) = Some t \<and>
           evaluate exact_host True t = Return (VFloat (- (5 / 2)))) \<and>
      (\<exists>t. format_8g exact_host (VFloat 5) = Some t \<and>
           evaluate exact_host True t = Return (VInt (int 5))) \<and>
      (\<exists>t. format_8g exact_host (VFloat (- 5)) = Some t \<and>
           evaluate exact_host True t = Return (VInt (- int 5)))"
    by blast
  moreover have "format_8g exact_host (VFloat (5 / 2)) = Some (u ''2.5'')"
    "format_8g exact_host (VFloat (- (5 / 2))) = Some (u ''-2.5'')"
    "format_8g exact_host (VFloat 5) = Some (u ''5'')"
    "format_8g exact_host (VFloat (- 5)) = Some (u ''-5'')"
    by (simp_all add: exact_host_def exact_format_5_2 exact_format_minus_5_2 exact_format_5
        exact_format_minus_5)
  moreover have "(if (- 42 :: int) < 0 then ch CHR ''-'' # digits_of (nat (- (- 42)))
      else digits_of (nat (- 42))) = u ''-42''"
    by (simp add: numerals u_def ch_def)
  ultimately show ?thesis
    by auto
qed

text \<open>
  The claim as it stands fails twice. \<open>100000000\<close> evaluates to the int \<open>10 ^ 8\<close>, which
  is formatted as \<open>1e+08\<close>, and that text does not evaluate. \<open>1/3\<close> evaluates to a
  third, which is formatted as \<open>0.33333333\<close>, and that text evaluates to another
  number: the format keeps eight significant digits.
\<close>

theorem C5_counterexample:
  "evaluate exact_host True (u ''100000000'') = Return (VInt 100000000) \<and>
   format_8g exact_host (VInt 100000000) = Some (u ''1e+08'') \<and>
   evaluate exact_host True (u ''1e+08'') = Raises SyntaxError \<and>
   evaluate exact_host True (u ''1/3'') = Return (VFloat (1 / 3)) \<and>
   format_8g exact_host (VFloat (1 / 3)) = Some (u ''0.33333333'') \<and>
   evaluate exact_host True (u ''0.33333333'') = Return (VFloat (33333333 / 100000000)) \<and>
   evaluate exact_host True (u ''0.33333333'') \<noteq> Return (VFloat (1 / 3))"
proof -
  have "format_8g exact_host (VFloat (1 / 3)) = Some (u ''0.33333333'')"
    by (simp add: exact_host_def exact_format_third)
  moreover have "evaluate exact_host True (u ''0.33333333'') \<noteq> Return (VFloat (1 / 3))"
    unfolding evaluate_033333333 by simp
  ultimately show ?thesis
    using evaluate_100000000 [of exact_host True] format_100000000 [of exact_host]
      evaluate_1e08 [of exact_host True] evaluate_1_div_3 evaluate_033333333
    by blast
qed

subsection \<open>The two substitutions as one pass (C8)\<close>









subsection \<open>Parentheses among the tokens\<close>




subsection \<open>Parentheses in the text\<close>































end
